theory Spec2Isabelle
  imports Complex_Main "HOL-Library.Word"
begin

unbundle bit_operations_syntax

text \<open>
  A model of the Zigbee host controller of pkg/zigbee: the ASH link layer (byte
  stuffing, CRC, sequence numbers, the receive path), the EZSP framing layer (the two
  wire formats, version negotiation, unicast), the ZCL codec and the controller's
  device table and \<open>SetDeviceState\<close>. Each Go function is a HOL function of the same
  name; state that a Go method mutates is passed in and returned; what the serial line
  and the NCP do is an input. The first part holds the definitions, the second the
  properties proved of them.
\<close>

section \<open>ASH link layer: constants and pure helpers (pkg/zigbee/ash.go)\<close>

type_synonym byte = "8 word"
type_synonym uint16 = "16 word"

abbreviation (input) ashFlagByte :: byte where "ashFlagByte \<equiv> 0x7E"
abbreviation (input) ashEscapeByte :: byte where "ashEscapeByte \<equiv> 0x7D"
abbreviation (input) ashXON :: byte where "ashXON \<equiv> 0x11"
abbreviation (input) ashXOFF :: byte where "ashXOFF \<equiv> 0x13"
abbreviation (input) ashFlipBit :: byte where "ashFlipBit \<equiv> 0x20"
abbreviation (input) ashCancelByte :: byte where "ashCancelByte \<equiv> 0x1A"
abbreviation (input) ashSubstitute :: byte where "ashSubstitute \<equiv> 0x18"

abbreviation (input) ashFrameData :: byte where "ashFrameData \<equiv> 0x00"
abbreviation (input) ashFrameACK :: byte where "ashFrameACK \<equiv> 0x80"
abbreviation (input) ashFrameNAK :: byte where "ashFrameNAK \<equiv> 0xA0"
abbreviation (input) ashFrameRST :: byte where "ashFrameRST \<equiv> 0xC0"
abbreviation (input) ashFrameRSTACK :: byte where "ashFrameRSTACK \<equiv> 0xC1"
abbreviation (input) ashFrameERROR :: byte where "ashFrameERROR \<equiv> 0xC2"

text \<open>
  \<open>ashStuff\<close>: the loop \<open>for _, b := range data\<close> appending to \<open>out\<close>;
  the accumulator is the slice \<open>out\<close>.
\<close>

fun ashStuff_loop :: "byte list \<Rightarrow> byte list \<Rightarrow> byte list" where
  "ashStuff_loop out [] = out"
| "ashStuff_loop out (b # data) =
     (if b = ashFlagByte \<or> b = ashEscapeByte \<or> b = ashXON \<or> b = ashXOFF
         \<or> b = ashSubstitute \<or> b = ashCancelByte
      then ashStuff_loop (out @ [ashEscapeByte, b XOR ashFlipBit]) data
      else ashStuff_loop (out @ [b]) data)"

definition ashStuff :: "byte list \<Rightarrow> byte list" where
  "ashStuff data = ashStuff_loop [] data"

text \<open>
  \<open>ashUnstuff\<close>: the loop state is the output slice and the flag \<open>escaped\<close>.
  A trailing escape byte with nothing after it is dropped, as in the source.
\<close>

fun ashUnstuff_loop :: "byte list \<Rightarrow> bool \<Rightarrow> byte list \<Rightarrow> byte list" where
  "ashUnstuff_loop out escaped [] = out"
| "ashUnstuff_loop out escaped (b # data) =
     (if escaped then ashUnstuff_loop (out @ [b XOR ashFlipBit]) False data
      else if b = ashEscapeByte then ashUnstuff_loop out True data
      else ashUnstuff_loop (out @ [b]) False data)"

definition ashUnstuff :: "byte list \<Rightarrow> byte list" where
  "ashUnstuff data = ashUnstuff_loop [] False data"

text \<open>
  \<open>crcCCITT\<close>: \<open>crc_shift\<close> is one pass of the inner loop body, \<open>crc_inner n\<close>
  runs it \<open>n\<close> times (the source runs it 8 times per byte), \<open>crc_loop\<close> is the
  loop over the input bytes. All arithmetic is on \<open>uint16\<close>, so the shift drops
  the bit that leaves the register.
\<close>

definition crc_shift :: "uint16 \<Rightarrow> uint16" where
  "crc_shift crc =
     (if crc AND 0x8000 \<noteq> 0 then push_bit 1 crc XOR 0x1021 else push_bit 1 crc)"

fun crc_inner :: "nat \<Rightarrow> uint16 \<Rightarrow> uint16" where
  "crc_inner 0 crc = crc"
| "crc_inner (Suc n) crc = crc_inner n (crc_shift crc)"

fun crc_loop :: "uint16 \<Rightarrow> byte list \<Rightarrow> uint16" where
  "crc_loop crc [] = crc"
| "crc_loop crc (b # data) =
     crc_loop (crc_inner 8 (crc XOR push_bit 8 (ucast b))) data"

definition crcCCITT :: "byte list \<Rightarrow> uint16" where
  "crcCCITT data = crc_loop 0xFFFF data"

text \<open>\<open>ashSeqLessThan\<close>: 3-bit sequence comparison with wrap-around, on \<open>uint8\<close>.\<close>

definition ashSeqLessThan :: "byte \<Rightarrow> byte \<Rightarrow> bool" where
  "ashSeqLessThan a b =
     (let a' = a AND 0x07; b' = b AND 0x07; diff = (b' - a') AND 0x07
      in diff > 0 \<and> diff \<le> 4)"

text \<open>
  \<open>buildDataFrame\<close>: control byte and payload, the CRC appended big-endian, the whole
  stuffed, then one flag byte. \<open>byte(crc>>8)\<close> and \<open>byte(crc&0xFF)\<close> are the
  truncating conversions.
\<close>

definition crc_hi :: "uint16 \<Rightarrow> byte" where
  "crc_hi crc = ucast (drop_bit 8 crc)"

definition crc_lo :: "uint16 \<Rightarrow> byte" where
  "crc_lo crc = ucast (crc AND 0xFF)"

definition buildDataFrame :: "byte \<Rightarrow> byte list \<Rightarrow> byte list" where
  "buildDataFrame control payload =
     (let raw = [control] @ payload;
          crc = crcCCITT raw;
          raw = raw @ [crc_hi crc, crc_lo crc];
          frame = ashStuff raw
      in frame @ [ashFlagByte])"

section \<open>ASH link layer: state and receive path (pkg/zigbee/ash.go)\<close>

datatype ashState = ashStateDisconnected | ashStateResetPending | ashStateConnected

text \<open>
  The fields of \<open>ASHLayer\<close> that the receive path reads or writes. \<open>serial\<close> is the
  list of buffers handed to \<open>SerialPort.Write\<close>, oldest first; the callers modelled
  here only log the error result of \<open>Write\<close>, so it does not appear. \<open>recvChan\<close> is the
  buffered channel of capacity 16 (its queued payloads, oldest first), \<open>connChan\<close> the
  buffered channel of capacity 1 (whether a signal is queued). The mutexes guard single
  reads and writes and have no counterpart in a sequential model.
\<close>

record ASHLayer =
  serial :: "byte list list"
  state :: ashState
  sendSeq :: byte
  ackNum :: byte
  recvSeq :: byte
  pending :: "byte \<rightharpoonup> byte list"
  recvChan :: "byte list list"
  connChan :: bool

text \<open>\<open>NewASHLayer\<close>: every field at its zero value, nothing written yet.\<close>

definition NewASHLayer :: ASHLayer where
  "NewASHLayer =
     \<lparr>serial = [], state = ashStateDisconnected, sendSeq = 0, ackNum = 0, recvSeq = 0,
      pending = Map.empty, recvChan = [], connChan = False\<rparr>"

definition recvChanCap :: nat where
  "recvChanCap = 16"

definition sendACK :: "ASHLayer \<Rightarrow> ASHLayer" where
  "sendACK a =
     (let ack = recvSeq a;
          control = ashFrameACK OR (ack AND 0x07);
          raw = [control];
          crc = crcCCITT raw;
          raw = raw @ [crc_hi crc, crc_lo crc];
          frame = ashStuff raw;
          frame = frame @ [ashFlagByte]
      in a\<lparr>serial := serial a @ [frame]\<rparr>)"

definition sendNAK :: "ASHLayer \<Rightarrow> ASHLayer" where
  "sendNAK a =
     (let ack = recvSeq a;
          control = ashFrameNAK OR (ack AND 0x07);
          raw = [control];
          crc = crcCCITT raw;
          raw = raw @ [crc_hi crc, crc_lo crc];
          frame = ashStuff raw;
          frame = frame @ [ashFlagByte]
      in a\<lparr>serial := serial a @ [frame]\<rparr>)"

text \<open>
  The loop \<open>for seq := range a.pending\<close> of \<open>handleData\<close> and \<open>handleACK\<close>: every
  key that \<open>ashSeqLessThan\<close> puts before the peer's ack number is deleted.
\<close>

definition dropAcked :: "(byte \<rightharpoonup> byte list) \<Rightarrow> byte \<Rightarrow> (byte \<rightharpoonup> byte list)" where
  "dropAcked p ack = (\<lambda>seq. if ashSeqLessThan seq ack then None else p seq)"

definition handleRSTACK :: "ASHLayer \<Rightarrow> byte list \<Rightarrow> ASHLayer" where
  "handleRSTACK a payload =
     a\<lparr>sendSeq := 0, ackNum := 0, recvSeq := 0, pending := Map.empty,
       state := ashStateConnected, connChan := True\<rparr>"

text \<open>
  \<open>handleData\<close>. \<open>payload[0]\<close> panics on an empty slice: that is the result \<open>None\<close>.
  The send on \<open>recvChan\<close> is the non-blocking \<open>select\<close>: with the buffer full the
  \<open>default\<close> branch drops the payload.
\<close>

definition handleData :: "ASHLayer \<Rightarrow> byte list \<Rightarrow> ASHLayer option" where
  "handleData a payload =
     (case payload of
        [] \<Rightarrow> None
      | control # rest \<Rightarrow>
          (let frmNum = drop_bit 4 control AND 0x07;
               npcAck = control AND 0x07;
               a = a\<lparr>pending := dropAcked (pending a) npcAck\<rparr>;
               expected = recvSeq a
           in if frmNum = expected then
                (let a = a\<lparr>recvSeq := (expected + 1) AND 0x07\<rparr>;
                     a = sendACK a;
                     ezspData = rest
                 in if length (recvChan a) < recvChanCap
                    then Some (a\<lparr>recvChan := recvChan a @ [ezspData]\<rparr>)
                    else Some a)
              else Some (sendNAK a)))"

definition handleACK :: "ASHLayer \<Rightarrow> byte \<Rightarrow> ASHLayer" where
  "handleACK a control =
     (let ackNum = control AND 0x07
      in a\<lparr>pending := dropAcked (pending a) ackNum\<rparr>)"

definition handleNAK :: "ASHLayer \<Rightarrow> byte \<Rightarrow> ASHLayer" where
  "handleNAK a control =
     (let nakNum = control AND 0x07
      in case pending a nakNum of
           Some frame \<Rightarrow> a\<lparr>serial := serial a @ [frame]\<rparr>
         | None \<Rightarrow> a)"

text \<open>
  \<open>processFrame\<close>, on the bytes accumulated before a flag byte. A frame shorter than 3
  bytes after unstuffing, or one whose CRC does not match, changes nothing.
\<close>

definition processFrame :: "ASHLayer \<Rightarrow> byte list \<Rightarrow> ASHLayer option" where
  "processFrame a stuffed =
     (let raw = ashUnstuff stuffed
      in if length raw < 3 then Some a
         else
           (let payload = take (length raw - 2) raw;
                receivedCRC = (push_bit 8 (ucast (raw ! (length raw - 2)) :: uint16))
                                OR ucast (raw ! (length raw - 1));
                computedCRC = crcCCITT payload
            in if receivedCRC \<noteq> computedCRC then Some a
               else
                 (let control = payload ! 0
                  in if control = ashFrameRSTACK then Some (handleRSTACK a payload)
                     else if control = ashFrameERROR then Some a
                     else if control AND 0x80 = ashFrameData then handleData a payload
                     else if control AND 0xE0 = ashFrameACK then Some (handleACK a control)
                     else if control AND 0xE0 = ashFrameNAK then Some (handleNAK a control)
                     else Some a)))"

section \<open>ZCL codec (src/unnamed/part_007, package zigbee)\<close>

abbreviation (input) zclClusterOnOff :: uint16 where "zclClusterOnOff \<equiv> 0x0006"
abbreviation (input) zclClusterLevelControl :: uint16 where "zclClusterLevelControl \<equiv> 0x0008"
abbreviation (input) zclCmdOff :: byte where "zclCmdOff \<equiv> 0x00"
abbreviation (input) zclCmdOn :: byte where "zclCmdOn \<equiv> 0x01"
abbreviation (input) zclCmdToggle :: byte where "zclCmdToggle \<equiv> 0x02"
abbreviation (input) zclCmdMoveToLevelWithOnOff :: byte where "zclCmdMoveToLevelWithOnOff \<equiv> 0x04"
abbreviation (input) zclFrameTypeGlobal :: byte where "zclFrameTypeGlobal \<equiv> 0x00"
abbreviation (input) zclFrameTypeClusterSpecific :: byte where "zclFrameTypeClusterSpecific \<equiv> 0x01"
abbreviation (input) zclGlobalReadAttributes :: byte where "zclGlobalReadAttributes \<equiv> 0x00"
abbreviation (input) zclDirectionClientToServer :: byte where "zclDirectionClientToServer \<equiv> 0x00"
abbreviation (input) zclProfileHA :: uint16 where "zclProfileHA \<equiv> 0x0104"

text \<open>
  \<open>binary.LittleEndian\<close>: \<open>Uint16\<close> of two bytes, and the two bytes of a
  \<open>uint16\<close> (\<open>PutUint16\<close>, and the pairs \<open>byte(x), byte(x>>8)\<close> of ezsp.go).
\<close>

definition le_uint16 :: "byte \<Rightarrow> byte \<Rightarrow> uint16" where
  "le_uint16 lo hi = ucast lo OR push_bit 8 (ucast hi)"

definition le_bytes16 :: "uint16 \<Rightarrow> byte list" where
  "le_bytes16 v = [ucast v, ucast (drop_bit 8 v)]"

text \<open>
  The package variable \<open>zclSeqCounter\<close> is passed in and returned: \<open>nextZCLSeq\<close>
  increments it (wrapping at 256) and returns the new value.
\<close>

definition nextZCLSeq :: "byte \<Rightarrow> byte \<times> byte" where
  "nextZCLSeq counter = (counter + 1, counter + 1)"

definition EncodeZCLClusterCommand :: "byte \<Rightarrow> byte \<Rightarrow> byte list \<Rightarrow> byte list \<times> byte" where
  "EncodeZCLClusterCommand counter commandID payload =
     (let (seqNumber, counter) = nextZCLSeq counter;
          frameControl = zclFrameTypeClusterSpecific OR zclDirectionClientToServer
      in ([frameControl, seqNumber, commandID] @ payload, counter))"

definition EncodeZCLGlobalCommand :: "byte \<Rightarrow> byte \<Rightarrow> byte list \<Rightarrow> byte list \<times> byte" where
  "EncodeZCLGlobalCommand counter commandID payload =
     (let (seqNumber, counter) = nextZCLSeq counter;
          frameControl = zclFrameTypeGlobal OR zclDirectionClientToServer
      in ([frameControl, seqNumber, commandID] @ payload, counter))"

definition BuildOnOffCommand :: "byte \<Rightarrow> byte \<Rightarrow> byte list \<times> byte" where
  "BuildOnOffCommand counter cmd = EncodeZCLClusterCommand counter cmd []"

definition BuildMoveToLevelCommand :: "byte \<Rightarrow> byte \<Rightarrow> uint16 \<Rightarrow> byte list \<times> byte" where
  "BuildMoveToLevelCommand counter level transitionTime =
     EncodeZCLClusterCommand counter zclCmdMoveToLevelWithOnOff
       ([level] @ le_bytes16 transitionTime)"

definition BuildReadAttributesCommand :: "byte \<Rightarrow> uint16 list \<Rightarrow> byte list \<times> byte" where
  "BuildReadAttributesCommand counter attrIDs =
     EncodeZCLGlobalCommand counter zclGlobalReadAttributes (concat (map le_bytes16 attrIDs))"

text \<open>\<open>zclDataTypeLength\<close>: the result is a Go \<open>int\<close>, \<open>-1\<close> for "not known".\<close>

definition zclDataTypeLength :: "byte \<Rightarrow> byte list \<Rightarrow> int" where
  "zclDataTypeLength dataType data =
     (if dataType = 0x10 then 1
      else if dataType = 0x20 then 1
      else if dataType = 0x21 then 2
      else if dataType = 0x22 then 3
      else if dataType = 0x23 then 4
      else if dataType = 0x28 then 1
      else if dataType = 0x29 then 2
      else if dataType = 0x30 then 1
      else if dataType = 0x31 then 2
      else if dataType = 0x42 then (if length data < 1 then -1 else 1 + int (unat (data ! 0)))
      else -1)"

text \<open>
  \<open>ParseReadAttributesResponse\<close>: the loop over \<open>offset\<close>, with the map built so far.
  The increments of \<open>offset\<close> before the value are written out: the status is read
  at \<open>offset + 2\<close>, the type at \<open>offset + 3\<close>, the value from \<open>offset + 4\<close>. \<open>continue\<close> is the recursive call, \<open>break\<close>
  returns the map.
\<close>

function ParseReadAttributesResponse_loop ::
  "byte list \<Rightarrow> nat \<Rightarrow> (uint16 \<rightharpoonup> byte list) \<Rightarrow> (uint16 \<rightharpoonup> byte list)" where
  "ParseReadAttributesResponse_loop data offset result =
     (if offset + 4 \<le> length data then
        (let attrID = le_uint16 (data ! offset) (data ! (offset + 1));
             status = data ! (offset + 2)
         in if status \<noteq> 0x00 then ParseReadAttributesResponse_loop data (offset + 3) result
            else if offset + 3 \<ge> length data then result
            else
              (let dataType = data ! (offset + 3);
                   valueLen = zclDataTypeLength dataType (drop (offset + 4) data)
               in if valueLen \<le> 0 \<or> int (offset + 4) + valueLen > int (length data)
                  then result
                  else
                    (let value = take (nat valueLen) (drop (offset + 4) data)
                     in ParseReadAttributesResponse_loop data (offset + 4 + nat valueLen)
                          (result(attrID \<mapsto> value)))))
      else result)"
  by pat_completeness auto
termination
  by (relation "measure (\<lambda>(data, offset, result). length data - offset)") auto

declare ParseReadAttributesResponse_loop.simps [simp del]

definition ParseReadAttributesResponse :: "byte list \<Rightarrow> (uint16 \<rightharpoonup> byte list)" where
  "ParseReadAttributesResponse data = ParseReadAttributesResponse_loop data 0 Map.empty"

section \<open>Errors\<close>

text \<open>
  The sentinel errors of pkg/device/errors.go, and the errors made by \<open>fmt.Errorf\<close>:
  \<open>Errorf\<close> holds the format string of an error that wraps nothing, \<open>Wrapf\<close> the
  format string and the error wrapped by \<open>%w\<close>. \<open>error_is\<close> is \<open>errors.Is\<close>: the
  error itself or one it wraps.
\<close>

datatype error =
    ErrNotFound
  | ErrTimeout
  | ErrNotConnected
  | ErrUnsupported
  | ErrValidation
  | Errorf string
  | Wrapf string error

fun error_is :: "error \<Rightarrow> error \<Rightarrow> bool" where
  "error_is (Wrapf msg inner) target = (Wrapf msg inner = target \<or> error_is inner target)"
| "error_is e target = (e = target)"

section \<open>EZSP framing layer (pkg/zigbee/ezsp.go)\<close>

abbreviation (input) ezspVersion :: uint16 where "ezspVersion \<equiv> 0x0000"
abbreviation (input) ezspSendUnicast :: uint16 where "ezspSendUnicast \<equiv> 0x0034"
abbreviation (input) ezspProtocolVersion :: byte where "ezspProtocolVersion \<equiv> 13"
abbreviation (input) emberSuccess :: byte where "emberSuccess \<equiv> 0x00"
abbreviation (input) emberApsOptionRetry :: uint16 where "emberApsOptionRetry \<equiv> 0x0040"
abbreviation (input) emberApsOptionEnableRouteDiscovery :: uint16
  where "emberApsOptionEnableRouteDiscovery \<equiv> 0x0100"

text \<open>
  The EZSP layer sees the ASH layer through the methods it calls on it. \<open>ash\<close> is the
  list of those calls, oldest first: \<open>SendData\<close> with the EZSP frame handed over, or
  \<open>Reset\<close>. What comes back for one command is an input of the model: \<open>SendData\<close>
  returned an error, or a response arrived on the command's channel (its parameter
  bytes, as \<open>processFrame\<close> delivers them), or the 5 s timer fired, or the layer was
  stopped.
\<close>

datatype ash_call = SendData "byte list" | Reset

datatype cmd_outcome =
    SendDataFails error
  | Responds "byte list"
  | TimesOut
  | Stops

record EZSPLayer =
  ash :: "ash_call list"
  seq :: byte
  extendedFormat :: bool

definition NewEZSPLayer :: EZSPLayer where
  "NewEZSPLayer = \<lparr>ash = [], seq = 0, extendedFormat = False\<rparr>"

text \<open>
  The outcomes of the commands still to come, in order. When none is left no response
  ever arrives, and the command times out.
\<close>

type_synonym ncp = "cmd_outcome list"

fun next_outcome :: "ncp \<Rightarrow> cmd_outcome \<times> ncp" where
  "next_outcome [] = (TimesOut, [])"
| "next_outcome (x # rest) = (x, rest)"

definition SendCommand ::
  "EZSPLayer \<Rightarrow> uint16 \<Rightarrow> byte list \<Rightarrow> cmd_outcome \<Rightarrow> (error + byte list) \<times> EZSPLayer" where
  "SendCommand e frameID params outcome =
     (let seq0 = seq e;
          e = e\<lparr>seq := seq e + 1\<rparr>;
          frame =
            (if extendedFormat e
             then [seq0] @ [0x01, 0x00] @ [ucast frameID, ucast (drop_bit 8 frameID)] @ params
             else [seq0] @ [0x00] @ [ucast frameID] @ params);
          e = e\<lparr>ash := ash e @ [SendData frame]\<rparr>
      in case outcome of
           SendDataFails err \<Rightarrow> (Inl (Wrapf ''send EZSP command 0x%04X: %w'' err), e)
         | Responds resp \<Rightarrow> (Inr resp, e)
         | TimesOut \<Rightarrow> (Inl (Errorf ''timeout waiting for EZSP response 0x%04X''), e)
         | Stops \<Rightarrow> (Inl (Errorf ''stopped''), e))"

text \<open>
  \<open>NegotiateVersion\<close>. The part of the source after the retry block (the length check
  and the decoding of the response) is \<open>NegotiateVersion_decode\<close>, so that both
  paths into it read the same.
\<close>

definition NegotiateVersion_decode ::
  "EZSPLayer \<Rightarrow> byte list \<Rightarrow> (error + byte \<times> byte \<times> uint16) \<times> EZSPLayer" where
  "NegotiateVersion_decode e resp =
     (if length resp < 4
      then (Inl (Errorf ''version response too short: %d bytes (raw: 0x%s)''), e)
      else
        (let protocolVersion = resp ! 0;
             stackType = resp ! 1;
             stackVersion = le_uint16 (resp ! 2) (resp ! 3);
             e = (if protocolVersion \<ge> 8 then e\<lparr>extendedFormat := True\<rparr> else e)
         in (Inr (protocolVersion, stackType, stackVersion), e)))"

definition NegotiateVersion ::
  "EZSPLayer \<Rightarrow> ncp \<Rightarrow> (error + byte \<times> byte \<times> uint16) \<times> EZSPLayer \<times> ncp" where
  "NegotiateVersion e n =
     (let desiredVersion = ezspProtocolVersion;
          e = e\<lparr>seq := 0\<rparr>;
          (outcome, n) = next_outcome n;
          (r, e) = SendCommand e ezspVersion [desiredVersion] outcome
      in case r of
           Inl err \<Rightarrow> (Inl (Wrapf ''version negotiation: %w'' err), e, n)
         | Inr resp \<Rightarrow>
             if length resp = 1 then
               (let ncpVersion = resp ! 0;
                    e = (if ncpVersion \<ge> 8 then e\<lparr>extendedFormat := True\<rparr> else e);
                    (outcome, n) = next_outcome n;
                    (r, e) = SendCommand e ezspVersion [ncpVersion] outcome
                in case r of
                     Inl err \<Rightarrow> (Inl (Wrapf ''version negotiation retry: %w'' err), e, n)
                   | Inr resp \<Rightarrow>
                       (let (res, e) = NegotiateVersion_decode e resp in (res, e, n)))
             else (let (res, e) = NegotiateVersion_decode e resp in (res, e, n)))"

definition SendUnicast ::
  "EZSPLayer \<Rightarrow> uint16 \<Rightarrow> uint16 \<Rightarrow> uint16 \<Rightarrow> byte \<Rightarrow> byte \<Rightarrow> byte list \<Rightarrow> cmd_outcome
     \<Rightarrow> error option \<times> EZSPLayer" where
  "SendUnicast e nodeID profileID clusterID srcEndpoint dstEndpoint payload outcome =
     (let options = emberApsOptionRetry OR emberApsOptionEnableRouteDiscovery;
          apsFrame = le_bytes16 profileID @ le_bytes16 clusterID
                       @ [srcEndpoint] @ [dstEndpoint]
                       @ le_bytes16 options @ [0x00, 0x00] @ [0x00];
          params = [0x00] @ le_bytes16 nodeID @ apsFrame
                     @ [0x01] @ [of_nat (length payload)] @ payload;
          (r, e) = SendCommand e ezspSendUnicast params outcome
      in case r of
           Inl err \<Rightarrow> (Some err, e)
         | Inr resp \<Rightarrow>
             if length resp < 1 \<or> resp ! 0 \<noteq> emberSuccess
             then (Some (Errorf ''sendUnicast failed: status 0x%02X''), e)
             else (None, e))"

section \<open>Controller (pkg/zigbee/controller.go)\<close>

text \<open>
  A \<open>float64\<close>: a finite value, a NaN or an infinity.
\<close>

datatype float64 = Finite real | NaN | PosInf | NegInf

text \<open>
  A value of Go's \<open>any\<close>, by its dynamic type. A \<open>json.Number\<close> is held as the
  \<open>int64\<close> its method \<open>Int64\<close> returns (the source discards that method's error).
\<close>

datatype go_any =
    GoString string
  | GoInt int
  | GoFloat64 float64
  | GoJsonNumber int
  | GoBool bool
  | GoNil

type_synonym DeviceState = "string \<rightharpoonup> go_any"

record KnownDevice =
  IEEEAddress :: "byte list"
  NodeID :: uint16
  DeviceType :: string
  Endpoint :: byte
  State :: DeviceState

record Device =
  ID :: string
  Name :: string
  Type :: string
  Protocol :: string
  Manufacturer :: string
  Model :: string
  StateSchema :: string
  Exposes :: string

text \<open>
  \<open>DiscoveryEvent\<close>: the fields \<open>Type\<close>, \<open>Device\<close> and \<open>Timestamp\<close> of the source,
  the first two renamed because \<open>Type\<close> and \<open>Device\<close> are taken above. The time is
  the reading of the clock, a number.
\<close>

record DiscoveryEvent =
  EventType :: string
  EventDevice :: "Device option"
  Timestamp :: nat

text \<open>
  \<open>Controller\<close>: the device table, the subscribers' channels (each a buffered channel
  of capacity 16, its queued events oldest first), the EZSP layer, and the package
  variable \<open>zclSeqCounter\<close> of the ZCL codec, which the controller's commands advance.
\<close>

record Controller =
  ezsp :: EZSPLayer
  devices :: "string \<rightharpoonup> KnownDevice"
  subscribers :: "DiscoveryEvent list list"
  connected :: bool
  zclSeqCounter :: byte

text \<open>
  The controller as \<open>NewController\<close> builds it, before the stack is brought up: an
  empty device table and no subscriber. \<open>Subscribe\<close> adds an empty channel.
\<close>

definition NewController :: Controller where
  "NewController =
     \<lparr>ezsp = NewEZSPLayer, devices = Map.empty, subscribers = [], connected = False,
      zclSeqCounter = 0\<rparr>"










text \<open>
  \<open>strings.ToUpper\<close> on the bytes of the string: the letters a to z become A to Z.
  Go also maps letters outside ASCII; none of them maps to a letter of ON, OFF or
  TOGGLE, so the comparisons of \<open>SetDeviceState\<close> come out the same.
\<close>

definition upper_char :: "char \<Rightarrow> char" where
  "upper_char ch =
     (let n = (of_char ch :: nat) in if 97 \<le> n \<and> n \<le> 122 then char_of (n - 32) else ch)"

definition ToUpper :: "string \<Rightarrow> string" where
  "ToUpper s = map upper_char s"

text \<open>
  The conversions \<open>uint8(v)\<close> of \<open>SetDeviceState\<close>. From an integer the value is
  taken modulo 256. From a \<open>float64\<close> the fraction is dropped (rounding towards
  zero), and the result is that integer when it lies in 0..255. For every other
  \<open>float64\<close> (a finite value whose integer part is outside 0..255, a NaN, an infinity)
  the Go specification leaves the result to the implementation: it is what the
  parameter \<open>platform\<close> returns, a function the model knows nothing about.
\<close>

definition uint8_of_int :: "int \<Rightarrow> byte" where
  "uint8_of_int v = word_of_int v"

definition float64_trunc :: "real \<Rightarrow> int" where
  "float64_trunc v = (if 0 \<le> v then \<lfloor>v\<rfloor> else \<lceil>v\<rceil>)"

definition uint8_of_float64 :: "(float64 \<Rightarrow> byte) \<Rightarrow> float64 \<Rightarrow> byte" where
  "uint8_of_float64 platform f =
     (case f of
        Finite v \<Rightarrow>
          if 0 \<le> float64_trunc v \<and> float64_trunc v \<le> 255
          then word_of_int (float64_trunc v)
          else platform f
      | _ \<Rightarrow> platform f)"

text \<open>
  \<open>SetDeviceState\<close>, in the three parts of the source. \<open>kd\<close> is the pointer read from
  the table: a write to \<open>kd.State\<close> is a write to the table's entry. Each part returns
  the error it ends the call with, if any.

  The first part: the key \<open>state\<close>. A value that is not a string fails the type
  assertion, and the block is skipped. The \<open>switch\<close> on the upper-cased string
  picks the command id, its \<open>default\<close> is the result \<open>None\<close>.
\<close>

definition SetDeviceState_state ::
  "Controller \<Rightarrow> string \<Rightarrow> KnownDevice \<Rightarrow> go_any option \<Rightarrow> ncp
     \<Rightarrow> error option \<times> Controller \<times> KnownDevice \<times> ncp" where
  "SetDeviceState_state c devId kd stateVal n =
     (case stateVal of
        Some (GoString strVal) \<Rightarrow>
          (let up = ToUpper strVal
           in case (if up = ''ON'' then Some zclCmdOn
                    else if up = ''OFF'' then Some zclCmdOff
                    else if up = ''TOGGLE'' then Some zclCmdToggle
                    else None) of
                None \<Rightarrow> (Some (Wrapf ''%w: invalid state value %q'' ErrValidation), c, kd, n)
              | Some cmd \<Rightarrow>
                  (let (payload, counter) = BuildOnOffCommand (zclSeqCounter c) cmd;
                       c = c\<lparr>zclSeqCounter := counter\<rparr>;
                       (outcome, n) = next_outcome n;
                       (err, e) = SendUnicast (ezsp c) (NodeID kd) zclProfileHA zclClusterOnOff
                                    1 (Endpoint kd) payload outcome;
                       c = c\<lparr>ezsp := e\<rparr>
                   in case err of
                        Some er \<Rightarrow> (Some (Wrapf ''send on/off command: %w'' er), c, kd, n)
                      | None \<Rightarrow>
                          (let kd = kd\<lparr>State := (State kd)(''state'' \<mapsto> GoString up)\<rparr>;
                               c = c\<lparr>devices := (devices c)(devId \<mapsto> kd)\<rparr>
                           in (None, c, kd, n))))
      | _ \<Rightarrow> (None, c, kd, n))"

text \<open>
  The second part: the key \<open>brightness\<close>, with the type switch on its value.
  \<open>platform\<close> is the implementation's conversion of the \<open>float64\<close> values that the
  Go specification leaves open.
\<close>

definition SetDeviceState_brightness ::
  "(float64 \<Rightarrow> byte) \<Rightarrow> Controller \<Rightarrow> string \<Rightarrow> KnownDevice \<Rightarrow> go_any option \<Rightarrow> ncp
     \<Rightarrow> error option \<times> Controller \<times> KnownDevice \<times> ncp" where
  "SetDeviceState_brightness platform c devId kd brightnessVal n =
     (case brightnessVal of
        None \<Rightarrow> (None, c, kd, n)
      | Some v \<Rightarrow>
          (case (case v of
                   GoFloat64 f \<Rightarrow> Some (uint8_of_float64 platform f)
                 | GoInt i \<Rightarrow> Some (uint8_of_int i)
                 | GoJsonNumber i \<Rightarrow> Some (uint8_of_int i)
                 | _ \<Rightarrow> None) of
             None \<Rightarrow> (Some (Wrapf ''%w: invalid brightness type'' ErrValidation), c, kd, n)
           | Some level \<Rightarrow>
               (let (payload, counter) = BuildMoveToLevelCommand (zclSeqCounter c) level 10;
                    c = c\<lparr>zclSeqCounter := counter\<rparr>;
                    (outcome, n) = next_outcome n;
                    (err, e) = SendUnicast (ezsp c) (NodeID kd) zclProfileHA
                                 zclClusterLevelControl 1 (Endpoint kd) payload outcome;
                    c = c\<lparr>ezsp := e\<rparr>
                in case err of
                     Some er \<Rightarrow> (Some (Wrapf ''send level command: %w'' er), c, kd, n)
                   | None \<Rightarrow>
                       (let kd = kd\<lparr>State := (State kd)(''brightness'' \<mapsto> GoInt (uint level))\<rparr>;
                            c = c\<lparr>devices := (devices c)(devId \<mapsto> kd)\<rparr>
                        in (None, c, kd, n)))))"

text \<open>
  The whole (the parameter \<open>id\<close> of the source is \<open>devId\<close> here): look the device
  up, run the two parts in order, return a copy of the device's state.
\<close>

definition SetDeviceState ::
  "(float64 \<Rightarrow> byte) \<Rightarrow> Controller \<Rightarrow> string \<Rightarrow> (string \<rightharpoonup> go_any) \<Rightarrow> ncp
     \<Rightarrow> (error + DeviceState) \<times> Controller \<times> ncp" where
  "SetDeviceState platform c devId st n =
     (case devices c devId of
        None \<Rightarrow> (Inl ErrNotFound, c, n)
      | Some kd \<Rightarrow>
          (let (err, c, kd, n) = SetDeviceState_state c devId kd (st ''state'') n
           in case err of
                Some er \<Rightarrow> (Inl er, c, n)
              | None \<Rightarrow>
                  (let (err, c, kd, n) =
                         SetDeviceState_brightness platform c devId kd (st ''brightness'') n
                   in case err of
                        Some er \<Rightarrow> (Inl er, c, n)
                      | None \<Rightarrow> (Inr (State kd), c, n))))"

section \<open>Definitions that follow the specification's words\<close>

text \<open>
  The reserved bytes of section 4.2.1 and the substitution it describes: a reserved byte
  becomes the escape byte followed by the byte with bit 5 flipped.
\<close>

definition ash_reserved :: "byte set" where
  "ash_reserved = {0x7E, 0x7D, 0x11, 0x13, 0x18, 0x1A}"

definition spec_stuff_byte :: "byte \<Rightarrow> byte list" where
  "spec_stuff_byte b = (if b \<in> ash_reserved then [0x7D, b XOR 0x20] else [b])"

text \<open>
  CRC-CCITT as section 4.2.2 words it: a 16-bit register starting at \<open>0xFFFF\<close>, the
  message fed one bit at a time, most significant bit of each byte first; at each bit the
  register shifts left by one and the polynomial \<open>0x1021\<close> is added (XOR) when the bit
  shifted out differs from the message bit.
\<close>

definition crc_bit_step :: "uint16 \<Rightarrow> bool \<Rightarrow> uint16" where
  "crc_bit_step crc x =
     (let top = (bit crc 15 \<noteq> x); crc' = push_bit 1 crc
      in if top then crc' XOR 0x1021 else crc')"

definition bits_msb_first :: "byte \<Rightarrow> bool list" where
  "bits_msb_first b = map (bit b) [7, 6, 5, 4, 3, 2, 1, 0]"

definition crc_ccitt_spec :: "byte list \<Rightarrow> uint16" where
  "crc_ccitt_spec data = foldl crc_bit_step 0xFFFF (concat (map bits_msb_first data))"

text \<open>
  The frame kinds of section 3 and the control byte table of section 4.2.3. A frame on
  the wire is read as the specification says: the closing flag byte removed, the rest
  unstuffed, the last two bytes compared with the CRC of what precedes them, and the
  control byte decoded by the table.
\<close>

datatype ash_frame =
    DATA byte byte bool "byte list"
  | ACK byte
  | NAK byte
  | RST
  | RSTACK "byte list"
  | ERROR "byte list"

definition spec_decode_control :: "byte \<Rightarrow> byte list \<Rightarrow> ash_frame option" where
  "spec_decode_control control rest =
     (if \<not> bit control 7
      then Some (DATA (drop_bit 4 control AND 7) (control AND 7) (bit control 3) rest)
      else if control AND 0xE0 = 0x80 then Some (ACK (control AND 7))
      else if control AND 0xE0 = 0xA0 then Some (NAK (control AND 7))
      else if control = 0xC0 then Some RST
      else if control = 0xC1 then Some (RSTACK rest)
      else if control = 0xC2 then Some (ERROR rest)
      else None)"

definition spec_decode_frame :: "byte list \<Rightarrow> ash_frame option" where
  "spec_decode_frame wire =
     (if wire = [] \<or> last wire \<noteq> 0x7E then None
      else
        (let raw = ashUnstuff (butlast wire)
         in if length raw < 3 then None
            else
              (let body = take (length raw - 2) raw;
                   crc = crcCCITT body
               in if raw ! (length raw - 2) = crc_hi crc \<and> raw ! (length raw - 1) = crc_lo crc
                  then spec_decode_control (hd body) (tl body)
                  else None)))"

text \<open>
  The Read Attributes Response parser as section 4.4 words it, on the bytes still to
  read: an entry is an attribute id (two bytes, little-endian) and a status byte; an
  entry with a status other than 0 is skipped; otherwise a type byte follows and then
  the number of bytes the type defines (1, 2, 3 or 4 for the booleans, integers and
  enums; for the octet string 0x42 its length byte and that many bytes). An entry that
  is cut short or has a type that is not recognised ends the parsing.
\<close>

definition spec_type_width :: "byte \<Rightarrow> byte list \<Rightarrow> nat option" where
  "spec_type_width ty rest =
     (if ty \<in> {0x10, 0x20, 0x28, 0x30} then Some 1
      else if ty \<in> {0x21, 0x29, 0x31} then Some 2
      else if ty = 0x22 then Some 3
      else if ty = 0x23 then Some 4
      else if ty = 0x42 then (case rest of [] \<Rightarrow> None | n # _ \<Rightarrow> Some (1 + unat n))
      else None)"

function spec_parse_attributes ::
  "byte list \<Rightarrow> (uint16 \<rightharpoonup> byte list) \<Rightarrow> (uint16 \<rightharpoonup> byte list)" where
  "spec_parse_attributes (lo # hi # status # rest) m =
     (if status \<noteq> 0 then spec_parse_attributes rest m
      else
        (case rest of
           [] \<Rightarrow> m
         | ty # vs \<Rightarrow>
             (case spec_type_width ty vs of
                None \<Rightarrow> m
              | Some n \<Rightarrow>
                  if n \<le> length vs
                  then spec_parse_attributes (drop n vs) (m(le_uint16 lo hi \<mapsto> take n vs))
                  else m)))"
| "spec_parse_attributes [] m = m"
| "spec_parse_attributes [lo] m = m"
| "spec_parse_attributes [lo, hi] m = m"
  by pat_completeness auto
termination
  by (relation "measure (\<lambda>(bs, m). length bs)") auto

text \<open>
  The frames of sections 4.3.1, 4.3.7 and 4.4, built field by field as the
  specification lists them. An EZSP frame in either wire format; the parameters of
  \<open>sendUnicast\<close> (type OUTGOING_DIRECT, destination node id, the APS frame with
  profile, cluster, source and destination endpoint, options RETRY | ROUTE_DISCOVERY,
  group id 0 and sequence 0, then message tag 1, the message length and the message);
  and a ZCL cluster-specific command (frame control 0x01, sequence, command id,
  payload).
\<close>

definition spec_ezsp_frame :: "bool \<Rightarrow> byte \<Rightarrow> uint16 \<Rightarrow> byte list \<Rightarrow> byte list" where
  "spec_ezsp_frame extended sq frame_id params =
     (if extended then [sq, 0x01, 0x00] @ le_bytes16 frame_id @ params
      else [sq, 0x00, ucast frame_id] @ params)"

definition spec_aps_frame :: "uint16 \<Rightarrow> uint16 \<Rightarrow> byte \<Rightarrow> byte \<Rightarrow> byte list" where
  "spec_aps_frame profile cluster src_ep dst_ep =
     le_bytes16 profile @ le_bytes16 cluster @ [src_ep, dst_ep]
       @ le_bytes16 0x0140 @ le_bytes16 0 @ [0]"

definition spec_unicast_params ::
  "uint16 \<Rightarrow> uint16 \<Rightarrow> uint16 \<Rightarrow> byte \<Rightarrow> byte \<Rightarrow> byte list \<Rightarrow> byte list" where
  "spec_unicast_params node_id profile cluster src_ep dst_ep message =
     [0x00] @ le_bytes16 node_id @ spec_aps_frame profile cluster src_ep dst_ep
       @ [0x01, of_nat (length message)] @ message"

definition spec_zcl_cluster_command :: "byte \<Rightarrow> byte \<Rightarrow> byte list \<Rightarrow> byte list" where
  "spec_zcl_cluster_command sq cmd payload = [0x01, sq, cmd] @ payload"

text \<open>
  The device and controller of scenario 4 of section 8: a light with node id 0x1234 and
  endpoint 1 in the table of a controller whose EZSP layer has switched to the extended
  format.
\<close>

definition scenario_light :: KnownDevice where
  "scenario_light =
     \<lparr>IEEEAddress = [0x11, 0x22, 0x33, 0x44, 0x55, 0x66, 0x77, 0x88], NodeID = 0x1234,
      DeviceType = ''light'', Endpoint = 1, State = Map.empty\<rparr>"

definition scenario_controller :: Controller where
  "scenario_controller =
     NewController\<lparr>ezsp := NewEZSPLayer\<lparr>extendedFormat := True\<rparr>,
                   devices := [''88:77:66:55:44:33:22:11'' \<mapsto> scenario_light],
                   connected := True\<rparr>"

section \<open>Properties\<close>

subsection \<open>Byte stuffing\<close>

lemma ashStuff_loop_append:
  "ashStuff_loop out data = out @ ashStuff_loop [] data"
proof (induction data arbitrary: out)
  case Nil
  show ?case by simp
next
  case (Cons b data)
  show ?case
    using Cons.IH [of "out @ [ashEscapeByte, b XOR ashFlipBit]"]
      Cons.IH [of "out @ [b]"] Cons.IH [of "[ashEscapeByte, b XOR ashFlipBit]"]
      Cons.IH [of "[b]"]
    by simp
qed

lemma ashStuff_Nil: "ashStuff [] = []"
  by (simp add: ashStuff_def)

lemma ashStuff_Cons: "ashStuff (b # data) = spec_stuff_byte b @ ashStuff data"
  unfolding ashStuff_def spec_stuff_byte_def ash_reserved_def
  using ashStuff_loop_append [of "[ashEscapeByte, b XOR ashFlipBit]" data]
    ashStuff_loop_append [of "[b]" data]
  by simp

lemma ashStuff_append: "ashStuff (xs @ ys) = ashStuff xs @ ashStuff ys"
  by (induction xs) (simp_all add: ashStuff_Nil ashStuff_Cons)

lemma ashStuff_concat: "ashStuff data = concat (map spec_stuff_byte data)"
  by (induction data) (simp_all add: ashStuff_Nil ashStuff_Cons)

lemma ashUnstuff_loop_stuff_byte:
  "ashUnstuff_loop out False (spec_stuff_byte b @ rest) = ashUnstuff_loop (out @ [b]) False rest"
  by (simp add: spec_stuff_byte_def ash_reserved_def word_bw_assocs)

lemma ashUnstuff_loop_ashStuff:
  "ashUnstuff_loop out False (ashStuff data) = out @ data"
  by (induction data arbitrary: out)
     (simp_all add: ashStuff_Nil ashStuff_Cons ashUnstuff_loop_stuff_byte)

lemma ashUnstuff_ashStuff: "ashUnstuff (ashStuff data) = data"
  by (simp add: ashUnstuff_def ashUnstuff_loop_ashStuff)

text \<open>
  C4. Unstuffing a stuffed byte sequence gives the sequence back, for every byte
  sequence; and stuffing is the substitution of the specification: each reserved byte
  (0x7E, 0x7D, 0x11, 0x13, 0x18, 0x1A) becomes 0x7D followed by the byte XOR 0x20, every
  other byte stays.
\<close>

theorem ashUnstuff_ashStuff_roundtrip:
  "ashUnstuff (ashStuff b) = b \<and> ashStuff b = concat (map spec_stuff_byte b)"
  using ashUnstuff_ashStuff [of b] ashStuff_concat [of b] by (rule conjI)

lemma spec_stuff_byte_set:
  "set (spec_stuff_byte b) \<inter> {0x7E, 0x11, 0x13, 0x18, 0x1A} = {}"
  by (auto simp: spec_stuff_byte_def ash_reserved_def)

lemma ashStuff_set: "set (ashStuff data) \<inter> {0x7E, 0x11, 0x13, 0x18, 0x1A} = {}"
proof (induction data)
  case Nil
  show ?case by (simp add: ashStuff_Nil)
next
  case (Cons b data)
  have "set (ashStuff (b # data)) = set (spec_stuff_byte b) \<union> set (ashStuff data)"
    by (simp add: ashStuff_Cons)
  with Cons spec_stuff_byte_set [of b] show ?case by blast
qed

lemma ashStuff_escape:
  "i < length (ashStuff data) \<Longrightarrow> ashStuff data ! i = 0x7D \<Longrightarrow>
     Suc i < length (ashStuff data) \<and> (\<exists>r\<in>ash_reserved. ashStuff data ! Suc i = r XOR 0x20)"
proof (induction data arbitrary: i)
  case Nil
  then show ?case by (simp add: ashStuff_Nil)
next
  case (Cons b data)
  show ?case
  proof (cases "b \<in> ash_reserved")
    case True
    then have eq: "ashStuff (b # data) = 0x7D # (b XOR 0x20) # ashStuff data"
      by (simp add: ashStuff_Cons spec_stuff_byte_def)
    from True have nb: "b XOR 0x20 \<noteq> 0x7D" by (auto simp: ash_reserved_def)
    consider "i = 0" | "i = 1" | j where "i = Suc (Suc j)"
      by (metis One_nat_def not0_implies_Suc)
    then show ?thesis
    proof cases
      case 1
      with True show ?thesis unfolding eq by auto
    next
      case 2
      with Cons.prems nb show ?thesis unfolding eq by simp
    next
      case 3
      with Cons.prems Cons.IH [of j] show ?thesis unfolding eq by simp
    qed
  next
    case False
    then have eq: "ashStuff (b # data) = b # ashStuff data"
      by (simp add: ashStuff_Cons spec_stuff_byte_def)
    from False have nb: "b \<noteq> 0x7D" by (auto simp: ash_reserved_def)
    show ?thesis
    proof (cases i)
      case 0
      with Cons.prems nb show ?thesis unfolding eq by simp
    next
      case (Suc j)
      with Cons.prems Cons.IH [of j] show ?thesis unfolding eq by simp
    qed
  qed
qed

lemma buildDataFrame_flag_last:
  assumes "i < length (buildDataFrame control payload)"
  shows "buildDataFrame control payload ! i = 0x7E \<longleftrightarrow>
         Suc i = length (buildDataFrame control payload)"
proof -
  define s where "s = ashStuff ([control] @ payload @
    [crc_hi (crcCCITT ([control] @ payload)), crc_lo (crcCCITT ([control] @ payload))])"
  have f: "buildDataFrame control payload = s @ [0x7E]"
    by (simp add: buildDataFrame_def Let_def s_def)
  have nf: "0x7E \<notin> set s" using ashStuff_set unfolding s_def by blast
  from assms have "i < length s \<or> i = length s" unfolding f by auto
  then show ?thesis
  proof
    assume a: "i < length s"
    then have "s ! i \<in> set s" by simp
    with nf have "s ! i \<noteq> 0x7E" by metis
    with a show ?thesis unfolding f by (simp add: nth_append)
  next
    assume "i = length s"
    then show ?thesis unfolding f by simp
  qed
qed

text \<open>
  C10. The output of \<open>ashStuff\<close> holds no flag, XON, XOFF, substitute or cancel byte,
  for every input; wherever it holds the escape byte 0x7D, the next byte exists and is a
  reserved byte XOR 0x20; and in a frame built by \<open>buildDataFrame\<close> the flag byte 0x7E
  stands at the last position and nowhere else.
\<close>

theorem ashStuff_frame_unambiguous:
  "set (ashStuff data) \<inter> {0x7E, 0x11, 0x13, 0x18, 0x1A} = {}
   \<and> (\<forall>i. i < length (ashStuff data) \<and> ashStuff data ! i = 0x7D \<longrightarrow>
          Suc i < length (ashStuff data)
          \<and> (\<exists>r\<in>ash_reserved. ashStuff data ! Suc i = r XOR 0x20))
   \<and> (\<forall>i. i < length (buildDataFrame control payload) \<longrightarrow>
          (buildDataFrame control payload ! i = 0x7E
             \<longleftrightarrow> Suc i = length (buildDataFrame control payload)))"
proof (intro conjI allI impI)
  show "set (ashStuff data) \<inter> {0x7E, 0x11, 0x13, 0x18, 0x1A} = {}"
    by (rule ashStuff_set)
next
  fix i assume "i < length (ashStuff data) \<and> ashStuff data ! i = 0x7D"
  then have "Suc i < length (ashStuff data)
      \<and> (\<exists>r\<in>ash_reserved. ashStuff data ! Suc i = r XOR 0x20)"
    using ashStuff_escape [of i data] by (elim conjE)
  then show "Suc i < length (ashStuff data)"
    and "\<exists>r\<in>ash_reserved. ashStuff data ! Suc i = r XOR 0x20" by (rule conjunct1, rule conjunct2)
next
  fix i assume "i < length (buildDataFrame control payload)"
  then show "buildDataFrame control payload ! i = 0x7E
             \<longleftrightarrow> Suc i = length (buildDataFrame control payload)"
    by (rule buildDataFrame_flag_last)
qed

theorem ashStuff_frame_unambiguous_witness:
  "ashStuff [0x7E, 0x01] = [0x7D, 0x5E, 0x01]
   \<and> (0::nat) < length (ashStuff [0x7E, 0x01]) \<and> ashStuff [0x7E, 0x01] ! 0 = 0x7D
   \<and> Suc 0 < length (ashStuff [0x7E, 0x01])
   \<and> (\<exists>r\<in>ash_reserved. ashStuff [0x7E, 0x01] ! Suc 0 = r XOR 0x20)
   \<and> buildDataFrame 0x25 [0x7E] = [0x25, 0x7D, 0x5E, 0x7B, 0x45, 0x7E]
   \<and> (5::nat) < length (buildDataFrame 0x25 [0x7E])
   \<and> buildDataFrame 0x25 [0x7E] ! 5 = 0x7E"
proof -
  note t = ashStuff_frame_unambiguous [of "[0x7E, 0x01]" "0x25" "[0x7E]"]
  have s: "ashStuff [0x7E, 0x01] = [0x7D, 0x5E, 0x01]"
    by (simp add: ashStuff_def)
  have f: "buildDataFrame 0x25 [0x7E] = [0x25, 0x7D, 0x5E, 0x7B, 0x45, 0x7E]"
    by code_simp
  have p0: "0 < length (ashStuff [0x7E, 0x01]) \<and> ashStuff [0x7E, 0x01] ! 0 = 0x7D"
    by (simp add: s)
  have e0: "Suc 0 < length (ashStuff [0x7E, 0x01])
      \<and> (\<exists>r\<in>ash_reserved. ashStuff [0x7E, 0x01] ! Suc 0 = r XOR 0x20)"
    using t [THEN conjunct2, THEN conjunct1, THEN spec, of 0] p0 by (rule mp)
  have p5: "5 < length (buildDataFrame 0x25 [0x7E])" by (simp add: f)
  have "buildDataFrame 0x25 [0x7E] ! 5 = 0x7E
          \<longleftrightarrow> Suc 5 = length (buildDataFrame 0x25 [0x7E])"
    using t [THEN conjunct2, THEN conjunct2, THEN spec, of 5] p5 by (rule mp)
  then have f5: "buildDataFrame 0x25 [0x7E] ! 5 = 0x7E" by (simp add: f)
  from s p0 e0 f p5 f5 show ?thesis by (intro conjI) (elim conjE; assumption)+
qed

subsection \<open>CRC\<close>

lemma msb_test: "(x::uint16) AND 0x8000 \<noteq> 0 \<longleftrightarrow> bit x 15"
  using and_exp_eq_0_iff_not_bit [of x 15] by simp

lemma crc_shift_xor:
  "crc_shift (c XOR w) = crc_bit_step c (bit w 15) XOR push_bit 1 w"
  by (simp add: crc_shift_def crc_bit_step_def Let_def msb_test bit_xor_iff push_bit_xor ac_simps)

lemma crc_inner_serial:
  "n \<le> 16 \<Longrightarrow> crc_inner n (c XOR w) =
     foldl crc_bit_step c (map (\<lambda>i. bit w (15 - i)) [0..<n]) XOR push_bit n w"
proof (induction n arbitrary: c w)
  case 0
  show ?case by simp
next
  case (Suc n)
  have bits: "map (\<lambda>i. bit (push_bit 1 w) (15 - i)) [0..<n] = map (\<lambda>i. bit w (15 - Suc i)) [0..<n]"
  proof (rule map_cong [OF refl])
    fix x assume "x \<in> set [0..<n]"
    with Suc.prems have x: "x < 15" by simp
    have "bit (push_bit 1 w) (15 - x) \<longleftrightarrow> bit w (15 - x - 1)"
      unfolding bit_push_bit_iff possible_bit_word using x by auto
    then show "bit (push_bit 1 w) (15 - x) = bit w (15 - Suc x)" by simp
  qed
  have "crc_inner (Suc n) (c XOR w) = crc_inner n (crc_bit_step c (bit w 15) XOR push_bit 1 w)"
    by (simp add: crc_shift_xor)
  also have "\<dots> = foldl crc_bit_step (crc_bit_step c (bit w 15))
                     (map (\<lambda>i. bit (push_bit 1 w) (15 - i)) [0..<n]) XOR push_bit n (push_bit 1 w)"
    using Suc.prems by (intro Suc.IH) simp
  also have "\<dots> = foldl crc_bit_step (crc_bit_step c (bit w 15))
                     (map (\<lambda>i. bit w (15 - Suc i)) [0..<n]) XOR push_bit n (push_bit 1 w)"
    by (simp only: bits)
  also have "\<dots> = foldl crc_bit_step c (map (\<lambda>i. bit w (15 - i)) (0 # map Suc [0..<n]))
                     XOR push_bit (Suc n) w"
    by (simp add: push_bit_push_bit o_def)
  also have "0 # map Suc [0..<n] = [0..<Suc n]"
    by (simp add: upt_conv_Cons map_Suc_upt del: upt_Suc)
  finally show ?case .
qed

lemma byte_bits:
  "map (\<lambda>i. bit (push_bit 8 (ucast b :: uint16)) (15 - i)) [0..<8] = bits_msb_first b"
  for b :: byte
proof -
  have u: "[0..<8] = [0, 1, 2, 3, 4, 5, 6, 7::nat]" by (simp add: upt_rec)
  show ?thesis unfolding u bits_msb_first_def
    by (simp add: bit_push_bit_iff bit_ucast_iff)
qed

lemma crc_byte:
  "crc_inner 8 (c XOR push_bit 8 (ucast b)) = foldl crc_bit_step c (bits_msb_first b)"
  for b :: byte
proof -
  have z: "push_bit 8 (push_bit 8 (ucast b :: uint16)) = 0"
    by (simp add: push_bit_push_bit)
  show ?thesis
    using crc_inner_serial [of 8 c "push_bit 8 (ucast b)"] unfolding byte_bits z by simp
qed

lemma crc_loop_spec:
  "crc_loop c data = foldl crc_bit_step c (concat (map bits_msb_first data))"
  by (induction data arbitrary: c) (simp_all add: crc_byte)

lemma crcCCITT_Nil: "crcCCITT [] = 0xFFFF"
  by (simp add: crcCCITT_def)

text \<open>
  C5, as the claim states it, fails: on the empty input the loop body never runs and the
  result is the initial value 0xFFFF, not 0x1D0F. (Nor is 0x1D0F the value on the single
  byte 00, which is 0xE1F0.)
\<close>

theorem crcCCITT_empty_counterexample:
  "crcCCITT [] = 0xFFFF \<and> crcCCITT [] \<noteq> 0x1D0F
   \<and> crcCCITT [0x00] = 0xE1F0 \<and> crcCCITT [0x00] \<noteq> 0x1D0F"
proof -
  have 1: "crcCCITT [] = 0xFFFF" by (simp add: crcCCITT_def)
  have 2: "crcCCITT [0x00] = 0xE1F0" by code_simp
  show ?thesis unfolding 1 2 by simp
qed

text \<open>
  C5 (amended). \<open>crcCCITT\<close> is the bit-serial CRC-CCITT of the specification (register
  0xFFFF at the start, polynomial 0x1021, each byte most significant bit first), for every
  input; on the empty input it returns the initial value 0xFFFF; 0x1D0F is its value on
  the two bytes 00 00. The check string "123456789" gives 0x29B1, and the control bytes
  of the RST and RSTACK frames give the CRCs those frames carry on the wire (C0 38 BC
  and C1 02 02 9B 7B).
\<close>

theorem crcCCITT_refines_spec:
  "crcCCITT data = crc_ccitt_spec data
   \<and> crcCCITT [] = 0xFFFF
   \<and> crcCCITT [0x00, 0x00] = 0x1D0F
   \<and> crcCCITT [0x31, 0x32, 0x33, 0x34, 0x35, 0x36, 0x37, 0x38, 0x39] = 0x29B1
   \<and> crcCCITT [0xC0] = 0x38BC
   \<and> crcCCITT [0xC1, 0x02, 0x02] = 0x9B7B"
proof -
  have 1: "crcCCITT data = crc_ccitt_spec data"
    by (simp add: crcCCITT_def crc_ccitt_spec_def crc_loop_spec)
  have 2: "crcCCITT [0x00, 0x00] = 0x1D0F" by code_simp
  have 3: "crcCCITT [0x31, 0x32, 0x33, 0x34, 0x35, 0x36, 0x37, 0x38, 0x39] = 0x29B1"
    by code_simp
  have 4: "crcCCITT [0xC0] = 0x38BC" by code_simp
  have 5: "crcCCITT [0xC1, 0x02, 0x02] = 0x9B7B" by code_simp
  from 1 crcCCITT_Nil 2 3 4 5 show ?thesis by simp
qed

subsection \<open>Sequence arithmetic\<close>

lemma and7: "(x::byte) AND 7 = take_bit 3 x"
  using take_bit_eq_mask [of 3 x] by (simp add: mask_eq_exp_minus_1)

lemma uint_and7: "uint ((x::byte) AND 7) = uint x mod 8"
proof -
  have "uint (take_bit 3 x) = take_bit 3 (uint x)" by (rule unsigned_take_bit_eq)
  also have "\<dots> = uint x mod 8" by (simp add: take_bit_eq_mod)
  finally show ?thesis unfolding and7 .
qed

lemma uint_diff7:
  "uint (((b AND 7) - (a AND 7)) AND 7) = (uint b - uint a) mod 8" for a b :: byte
proof -
  have "uint (((b AND 7) - (a AND 7)) AND 7) = ((uint b mod 8 - uint a mod 8) mod 256) mod 8"
    by (simp add: uint_and7 uint_word_ariths)
  also have "\<dots> = (uint b mod 8 - uint a mod 8) mod 8"
    by (simp add: mod_mod_cancel)
  also have "\<dots> = (uint b - uint a) mod 8"
    by (simp add: mod_diff_eq)
  finally show ?thesis .
qed

lemma ashSeqLessThan_iff:
  "ashSeqLessThan a b \<longleftrightarrow> (uint b - uint a) mod 8 \<in> {1, 2, 3, 4}"
proof -
  let ?d = "((b AND 7) - (a AND 7)) AND 7"
  have "ashSeqLessThan a b \<longleftrightarrow> 0 < ?d \<and> ?d \<le> 4"
    by (simp add: ashSeqLessThan_def Let_def)
  also have "\<dots> \<longleftrightarrow> 0 < uint ?d \<and> uint ?d \<le> 4"
    by (simp add: word_less_def word_le_def)
  also have "\<dots> \<longleftrightarrow> (uint b - uint a) mod 8 \<in> {1, 2, 3, 4}"
    unfolding uint_diff7 by auto
  finally show ?thesis .
qed

lemma mod8_swap:
  "(x - y) mod 8 = (if (y - x) mod 8 = 0 then 0 else 8 - (y - x) mod 8)" for x y :: int
  using zmod_zminus1_eq_if [of "y - x" 8] by simp

lemma ashSeqLessThan_rev:
  "ashSeqLessThan b a \<longleftrightarrow> (uint b - uint a) mod 8 \<in> {4, 5, 6, 7}"
proof -
  define d where "d = (uint b - uint a) mod 8"
  have r: "0 \<le> d" "d < 8" by (simp_all add: d_def)
  have "ashSeqLessThan b a \<longleftrightarrow> (if d = 0 then 0 else 8 - d) \<in> {1, 2, 3, 4}"
    unfolding ashSeqLessThan_iff [of b a] mod8_swap [of "uint a" "uint b"] d_def ..
  also have "\<dots> \<longleftrightarrow> d \<in> {4, 5, 6, 7}" using r by auto
  finally show ?thesis unfolding d_def .
qed

lemma seq_eq_iff_mod8:
  "a < 8 \<Longrightarrow> b < 8 \<Longrightarrow> a = b \<longleftrightarrow> (uint b - uint a) mod 8 = 0" for a b :: byte
proof -
  assume "a < 8" "b < 8"
  then have ua: "uint a < 8" and ub: "uint b < 8" by (simp_all add: word_less_def)
  have na: "0 \<le> uint a" and nb: "0 \<le> uint b" by simp_all
  have "(uint b - uint a) mod 8 = 0 \<longleftrightarrow> uint b - uint a = 0"
  proof (cases "uint a \<le> uint b")
    case True
    then have "(uint b - uint a) mod 8 = uint b - uint a"
      using ub na by (intro mod_pos_pos_trivial; linarith)
    then show ?thesis by simp
  next
    case False
    then have "(uint a - uint b) mod 8 = uint a - uint b"
      using ua nb by (intro mod_pos_pos_trivial; linarith)
    with False show ?thesis
      unfolding mod8_swap [of "uint b" "uint a"] by (auto split: if_splits)
  qed
  then show ?thesis by (auto simp: word_uint_eq_iff)
qed

text \<open>
  C3, as the claim states it, fails: at distance 4 both comparisons hold, so "exactly one
  of the three" is false and the XOR of the three is false.
\<close>

theorem ashSeqLessThan_xor_counterexample:
  "ashSeqLessThan 0 4 \<and> ashSeqLessThan 4 0 \<and> (0::byte) \<noteq> 4
   \<and> \<not> ((ashSeqLessThan 0 4 \<noteq> ashSeqLessThan 4 0) \<noteq> ((0::byte) = 4))"
  by (simp add: ashSeqLessThan_def)

text \<open>
  C3 (amended). For 3-bit values a and b: \<open>ashSeqLessThan a b\<close> holds iff
  (b - a) mod 8 is one of 1, 2, 3, 4; at least one of \<open>ashSeqLessThan a b\<close>,
  \<open>ashSeqLessThan b a\<close>, \<open>a = b\<close> holds; \<open>a = b\<close> excludes both comparisons; both
  comparisons hold together exactly when (b - a) mod 8 = 4 (so exactly one of the three
  holds at every other distance); and \<open>ashSeqLessThan 7 0\<close>, \<open>ashSeqLessThan 0 4\<close> hold
  while \<open>ashSeqLessThan 0 5\<close> does not.
\<close>

theorem ashSeqLessThan_spec:
  fixes a b :: byte
  assumes "a < 8" and "b < 8"
  shows "(ashSeqLessThan a b \<longleftrightarrow> (uint b - uint a) mod 8 \<in> {1, 2, 3, 4})
       \<and> (ashSeqLessThan a b \<or> ashSeqLessThan b a \<or> a = b)
       \<and> (a = b \<longrightarrow> \<not> ashSeqLessThan a b \<and> \<not> ashSeqLessThan b a)
       \<and> (ashSeqLessThan a b \<and> ashSeqLessThan b a \<longleftrightarrow> (uint b - uint a) mod 8 = 4)
       \<and> ashSeqLessThan 7 0 \<and> ashSeqLessThan 0 4 \<and> \<not> ashSeqLessThan 0 5"
proof -
  define d where "d = (uint b - uint a) mod 8"
  have r: "0 \<le> d" "d < 8" by (simp_all add: d_def)
  have 1: "ashSeqLessThan a b \<longleftrightarrow> d \<in> {1, 2, 3, 4}"
    unfolding d_def by (rule ashSeqLessThan_iff)
  have 2: "ashSeqLessThan b a \<longleftrightarrow> d \<in> {4, 5, 6, 7}"
    unfolding d_def by (rule ashSeqLessThan_rev)
  have 3: "a = b \<longleftrightarrow> d = 0" unfolding d_def using assms by (rule seq_eq_iff_mod8)
  have c2: "ashSeqLessThan a b \<or> ashSeqLessThan b a \<or> a = b"
    unfolding 1 2 3 using r by auto
  have c3: "a = b \<longrightarrow> \<not> ashSeqLessThan a b \<and> \<not> ashSeqLessThan b a"
    unfolding 1 2 3 by simp
  have c4: "ashSeqLessThan a b \<and> ashSeqLessThan b a \<longleftrightarrow> d = 4"
    unfolding 1 2 by auto
  have c5: "ashSeqLessThan 7 0 \<and> ashSeqLessThan 0 4 \<and> \<not> ashSeqLessThan 0 5"
    by (simp add: ashSeqLessThan_def)
  from 1 c2 c3 c4 c5 show ?thesis unfolding d_def by blast
qed

theorem ashSeqLessThan_spec_witness:
  "(3::byte) < 8 \<and> (6::byte) < 8 \<and> ashSeqLessThan 3 6 \<and> \<not> ashSeqLessThan 6 3
   \<and> (3::byte) \<noteq> 6 \<and> (uint (6::byte) - uint (3::byte)) mod 8 = 3"
  using ashSeqLessThan_spec [of 3 6] by (simp add: ashSeqLessThan_def)

subsection \<open>ASH receive path\<close>

lemma and_ff: "(c::uint16) AND 0xFF = take_bit 8 c"
  using take_bit_eq_mask [of 8 c] by (simp add: mask_eq_exp_minus_1)

lemma crc_hi_lo: "(push_bit 8 (ucast (crc_hi c)) :: uint16) OR ucast (crc_lo c) = c"
  unfolding crc_hi_def crc_lo_def and_ff
  by (rule bit_word_eqI) (auto simp: bit_simps)

lemma lt8_and7: "n < 8 \<Longrightarrow> n AND 7 = n" for n :: byte
  using less_mask_eq [of n 3] by (simp add: mask_eq_exp_minus_1)

lemma and7_lt8: "n AND 7 < 8" for n :: byte
  using and_mask_less_size [of 3 n] by (simp add: mask_eq_exp_minus_1 word_size)

lemma byte_lt8_cases:
  fixes m :: byte
  assumes "m < 8"
  shows "m = 0 \<or> m = 1 \<or> m = 2 \<or> m = 3 \<or> m = 4 \<or> m = 5 \<or> m = 6 \<or> m = 7"
proof -
  from assms have "unat m < 8" by (simp add: word_less_nat_alt)
  then have "unat m = 0 \<or> unat m = 1 \<or> unat m = 2 \<or> unat m = 3 \<or> unat m = 4
      \<or> unat m = 5 \<or> unat m = 6 \<or> unat m = 7" by arith
  moreover have "m = of_nat (unat m)" by simp
  ultimately show ?thesis by (elim disjE) simp_all
qed

lemma ack_control:
  fixes n :: byte
  shows "(0x80 OR (n AND 7)) AND 0xE0 = 0x80" and "(0x80 OR (n AND 7)) AND 7 = n AND 7"
    and "bit (0x80 OR (n AND 7) :: byte) 7"
  using byte_lt8_cases [OF and7_lt8 [of n]] by (elim disjE; simp)+

lemma nak_control:
  fixes n :: byte
  shows "(0xA0 OR (n AND 7)) AND 0xE0 = 0xA0" and "(0xA0 OR (n AND 7)) AND 7 = n AND 7"
    and "bit (0xA0 OR (n AND 7) :: byte) 7"
  using byte_lt8_cases [OF and7_lt8 [of n]] by (elim disjE; simp)+

lemma succ_mod8:
  fixes n :: byte
  assumes "n < 8"
  shows "(n + 1) AND 7 < 8" and "unat ((n + 1) AND 7) = (unat n + 1) mod 8"
  using byte_lt8_cases [OF assms] by (elim disjE; simp)+

lemma spec_decode_frame_sent:
  "spec_decode_frame (ashStuff [c, crc_hi (crcCCITT [c]), crc_lo (crcCCITT [c])] @ [0x7E])
     = spec_decode_control c []"
  by (simp add: spec_decode_frame_def ashUnstuff_ashStuff Let_def)

lemma sendACK_decodes:
  "\<exists>f. serial (sendACK a) = serial a @ [f]
       \<and> spec_decode_frame f = Some (ACK (recvSeq a AND 7))"
  by (simp add: sendACK_def Let_def spec_decode_frame_sent spec_decode_control_def ack_control)

lemma sendNAK_decodes:
  "\<exists>f. serial (sendNAK a) = serial a @ [f]
       \<and> spec_decode_frame f = Some (NAK (recvSeq a AND 7))"
  by (simp add: sendNAK_def Let_def spec_decode_frame_sent spec_decode_control_def nak_control)

lemma sendACK_fields:
  "recvSeq (sendACK a) = recvSeq a" "recvChan (sendACK a) = recvChan a"
  "pending (sendACK a) = pending a" "state (sendACK a) = state a"
  by (simp_all add: sendACK_def Let_def)

lemma sendNAK_fields:
  "recvSeq (sendNAK a) = recvSeq a" "recvChan (sendNAK a) = recvChan a"
  "pending (sendNAK a) = pending a" "state (sendNAK a) = state a"
  by (simp_all add: sendNAK_def Let_def)

lemma data_control_not_special:
  fixes control :: byte
  assumes "control AND 0x80 = 0"
  shows "control \<noteq> 0xC1" and "control \<noteq> 0xC2"
  using assms by auto

lemma processFrame_valid_data:
  assumes "control AND 0x80 = 0"
  shows "processFrame a (ashStuff ((control # rest) @
            [crc_hi (crcCCITT (control # rest)), crc_lo (crcCCITT (control # rest))]))
         = handleData a (control # rest)"
proof -
  let ?p = "control # rest"
  let ?raw = "?p @ [crc_hi (crcCCITT ?p), crc_lo (crcCCITT ?p)]"
  have l: "length ?raw - 2 = length ?p" by simp
  have t: "take (length ?raw - 2) ?raw = ?p" unfolding l by simp
  have n1: "?raw ! (length ?raw - 2) = crc_hi (crcCCITT ?p)"
    unfolding l by (simp only: nth_append_length)
  have n2: "?raw ! (length ?raw - 1) = crc_lo (crcCCITT ?p)"
    by (simp add: nth_append)
  have len: "\<not> length ?raw < 3" by simp
  show ?thesis
    unfolding processFrame_def ashUnstuff_ashStuff Let_def t n1 n2 crc_hi_lo
    using assms data_control_not_special [OF assms] len by simp
qed


lemma handleData_in_sequence:
  assumes "drop_bit 4 control AND 0x07 = recvSeq a"
  shows "\<exists>a'. handleData a (control # ezspData) = Some a'
     \<and> recvSeq a' = (recvSeq a + 1) AND 0x07
     \<and> (\<exists>f. serial a' = serial a @ [f]
            \<and> spec_decode_frame f = Some (ACK (((recvSeq a + 1) AND 0x07) AND 7)))
     \<and> recvChan a' = (if length (recvChan a) < 16 then recvChan a @ [ezspData]
                       else recvChan a)
     \<and> pending a' = dropAcked (pending a) (control AND 0x07)"
proof -
  define b where "b = a\<lparr>pending := dropAcked (pending a) (control AND 0x07),
                         recvSeq := (recvSeq a + 1) AND 0x07\<rparr>"
  have h: "handleData a (control # ezspData) =
      (if length (recvChan a) < 16
       then Some ((sendACK b)\<lparr>recvChan := recvChan a @ [ezspData]\<rparr>)
       else Some (sendACK b))"
    using assms by (simp add: handleData_def Let_def b_def sendACK_fields recvChanCap_def)
  from sendACK_decodes [of b] obtain f where
    f: "serial (sendACK b) = serial a @ [f]"
       "spec_decode_frame f = Some (ACK (((recvSeq a + 1) AND 0x07) AND 7))"
    by (auto simp: b_def)
  show ?thesis
  proof (cases "length (recvChan a) < 16")
    case True
    with h f show ?thesis by (simp add: sendACK_fields b_def)
  next
    case False
    with h f show ?thesis by (simp add: sendACK_fields b_def)
  qed
qed

lemma handleData_out_of_sequence:
  assumes "drop_bit 4 control AND 0x07 \<noteq> recvSeq a"
  shows "\<exists>a'. handleData a (control # ezspData) = Some a'
     \<and> recvSeq a' = recvSeq a
     \<and> (\<exists>f. serial a' = serial a @ [f]
            \<and> spec_decode_frame f = Some (NAK (recvSeq a AND 7)))
     \<and> recvChan a' = recvChan a
     \<and> pending a' = dropAcked (pending a) (control AND 0x07)"
proof -
  define b where "b = a\<lparr>pending := dropAcked (pending a) (control AND 0x07)\<rparr>"
  have h: "handleData a (control # ezspData) = Some (sendNAK b)"
    using assms by (simp add: handleData_def Let_def b_def)
  from sendNAK_decodes [of b] obtain f where
    "serial (sendNAK b) = serial a @ [f]"
    "spec_decode_frame f = Some (NAK (recvSeq a AND 7))"
    by (auto simp: b_def)
  with h show ?thesis by (simp add: sendNAK_fields b_def)
qed

text \<open>
  C2 (amended). For a DATA frame whose CRC is right, \<open>processFrame\<close> runs \<open>handleData\<close>
  on it, and with the expected receive sequence in 0..7: when the frame's number equals
  the expected receive sequence, that sequence advances by one modulo 8, one frame is
  written that decodes as an ACK carrying the advanced value, and the payload without
  its control byte is queued for EZSP if the queue holds fewer than 16 payloads (with
  16 queued it is dropped, the ACK being sent all the same); otherwise the expected
  receive sequence stays, one frame is written that decodes as a NAK carrying it, and
  the queue is unchanged.
\<close>

theorem handleData_ack_or_nak:
  fixes a :: ASHLayer
  assumes "control AND 0x80 = 0" and "recvSeq a < 8"
  shows "\<exists>a'. processFrame a (ashStuff ((control # ezspData) @
                   [crc_hi (crcCCITT (control # ezspData)),
                    crc_lo (crcCCITT (control # ezspData))])) = Some a'
     \<and> handleData a (control # ezspData) = Some a'
     \<and> (if drop_bit 4 control AND 0x07 = recvSeq a
         then unat (recvSeq a') = (unat (recvSeq a) + 1) mod 8
            \<and> (\<exists>f. serial a' = serial a @ [f]
                   \<and> spec_decode_frame f = Some (ACK (recvSeq a')))
            \<and> recvChan a' = (if length (recvChan a) < 16 then recvChan a @ [ezspData]
                              else recvChan a)
         else recvSeq a' = recvSeq a
            \<and> (\<exists>f. serial a' = serial a @ [f]
                   \<and> spec_decode_frame f = Some (NAK (recvSeq a)))
            \<and> recvChan a' = recvChan a)"
proof (cases "drop_bit 4 control AND 0x07 = recvSeq a")
  case True
  from handleData_in_sequence [OF True, of ezspData] obtain a' where
    a': "handleData a (control # ezspData) = Some a'"
        "recvSeq a' = (recvSeq a + 1) AND 0x07"
        "\<exists>f. serial a' = serial a @ [f]
            \<and> spec_decode_frame f = Some (ACK (((recvSeq a + 1) AND 0x07) AND 7))"
        "recvChan a' = (if length (recvChan a) < 16 then recvChan a @ [ezspData]
                        else recvChan a)"
    by blast
  have m: "((recvSeq a + 1) AND 0x07) AND 7 = recvSeq a'"
    using lt8_and7 [OF succ_mod8(1) [OF assms(2)]] a'(2) by simp
  have u: "unat (recvSeq a') = (unat (recvSeq a) + 1) mod 8"
    using succ_mod8(2) [OF assms(2)] a'(2) by simp
  from a' m u True processFrame_valid_data [OF assms(1), of a ezspData]
  show ?thesis by simp
next
  case False
  from handleData_out_of_sequence [OF False, of ezspData] obtain a' where
    a': "handleData a (control # ezspData) = Some a'"
        "recvSeq a' = recvSeq a"
        "\<exists>f. serial a' = serial a @ [f]
            \<and> spec_decode_frame f = Some (NAK (recvSeq a AND 7))"
        "recvChan a' = recvChan a"
    by blast
  from a' False lt8_and7 [OF assms(2)] processFrame_valid_data [OF assms(1), of a ezspData]
  show ?thesis by simp
qed


theorem handleData_ack_or_nak_witness:
  "(0x50::byte) AND 0x80 = 0
   \<and> recvSeq (NewASHLayer\<lparr>state := ashStateConnected, recvSeq := 3\<rparr>) < 8
   \<and> drop_bit 4 (0x50::byte) AND 0x07 = 5
   \<and> (\<exists>a'. processFrame (NewASHLayer\<lparr>state := ashStateConnected, recvSeq := 3\<rparr>)
               (ashStuff ([0x50, 0x01, 0x02] @
                  [crc_hi (crcCCITT [0x50, 0x01, 0x02]),
                   crc_lo (crcCCITT [0x50, 0x01, 0x02])])) = Some a'
          \<and> recvSeq a' = 3
          \<and> (\<exists>f. serial a' = [f] \<and> spec_decode_frame f = Some (NAK 3))
          \<and> recvChan a' = [])"
  using handleData_ack_or_nak
    [of "0x50" "NewASHLayer\<lparr>state := ashStateConnected, recvSeq := 3\<rparr>" "[0x01, 0x02]"]
  by (simp add: NewASHLayer_def) blast

text \<open>
  C2, as the claim states it, fails: with 16 payloads queued, an in-sequence DATA frame
  is acknowledged (the expected receive sequence advances to 1) and its payload is not
  delivered.
\<close>

theorem handleData_full_queue_counterexample:
  "drop_bit 4 (0x00::byte) AND 0x07
     = recvSeq (NewASHLayer\<lparr>state := ashStateConnected, recvChan := replicate 16 [0x00]\<rparr>)
   \<and> map_option recvSeq
       (handleData (NewASHLayer\<lparr>state := ashStateConnected, recvChan := replicate 16 [0x00]\<rparr>)
          [0x00, 0xAA]) = Some 1
   \<and> map_option recvChan
       (handleData (NewASHLayer\<lparr>state := ashStateConnected, recvChan := replicate 16 [0x00]\<rparr>)
          [0x00, 0xAA]) = Some (replicate 16 [0x00])
   \<and> [0xAA] \<notin> set (replicate 16 [0x00 :: byte])"
  by (simp add: handleData_def NewASHLayer_def Let_def sendACK_fields recvChanCap_def)

lemma handleData_recvSeq_bound:
  assumes "recvSeq a < 8" and "handleData a payload = Some a'"
  shows "recvSeq a' < 8"
proof (cases payload)
  case Nil
  with assms(2) show ?thesis by (simp add: handleData_def)
next
  case (Cons control rest)
  show ?thesis
  proof (cases "drop_bit 4 control AND 0x07 = recvSeq a")
    case True
    from handleData_in_sequence [OF True, of rest] assms(2) Cons
    have "recvSeq a' = (recvSeq a + 1) AND 0x07" by auto
    then show ?thesis using and7_lt8 [of "recvSeq a + 1"] by simp
  next
    case False
    from handleData_out_of_sequence [OF False, of rest] assms(2) Cons
    have "recvSeq a' = recvSeq a" by auto
    with assms(1) show ?thesis by simp
  qed
qed

lemma processFrame_recvSeq_bound:
  assumes "recvSeq a < 8" and "processFrame a stuffed = Some a'"
  shows "recvSeq a' < 8"
  using assms handleData_recvSeq_bound [OF assms(1)]
  by (auto simp: processFrame_def Let_def handleRSTACK_def handleACK_def handleNAK_def
      split: if_splits option.splits)

lemma NewASHLayer_recvSeq_bound: "recvSeq NewASHLayer < 8"
  by (simp add: NewASHLayer_def)

lemma processFrame_total: "\<exists>a'. processFrame a stuffed = Some a'"
proof -
  have "\<exists>a'. handleData a (take (length raw - 2) raw) = Some a'"
    if "\<not> length raw < 3" for raw :: "byte list"
  proof -
    from that obtain c r where "take (length raw - 2) raw = c # r"
      by (cases "take (length raw - 2) raw") auto
    then show ?thesis
      using handleData_in_sequence [of c a r] handleData_out_of_sequence [of c a r]
      by (cases "drop_bit 4 c AND 0x07 = recvSeq a") auto
  qed
  then show ?thesis by (auto simp: processFrame_def Let_def)
qed

subsection \<open>Read Attributes Response parser\<close>

lemma zclDataTypeLength_width:
  "zclDataTypeLength ty vs = (case spec_type_width ty vs of None \<Rightarrow> -1 | Some n \<Rightarrow> int n)"
  by (cases vs) (simp_all add: zclDataTypeLength_def spec_type_width_def)

lemma spec_type_width_pos: "spec_type_width ty vs = Some n \<Longrightarrow> 0 < n"
  by (auto simp: spec_type_width_def split: if_splits list.splits)

lemma spec_parse_short: "length bs < 4 \<Longrightarrow> spec_parse_attributes bs m = m"
proof (cases bs)
  case Nil
  then show ?thesis by simp
next
  case c1: (Cons a r1)
  assume len: "length bs < 4"
  show ?thesis
  proof (cases r1)
    case Nil
    with c1 show ?thesis by simp
  next
    case c2: (Cons b r2)
    show ?thesis
    proof (cases r2)
      case Nil
      with c1 c2 show ?thesis by simp
    next
      case c3: (Cons c r3)
      with len c1 c2 have "r3 = []" by simp
      with c1 c2 c3 show ?thesis by simp
    qed
  qed
qed

lemma drop_nth_Cons: "i < length xs \<Longrightarrow> drop i xs = xs ! i # drop (i + 1) xs"
  by (simp add: Cons_nth_drop_Suc)

lemma drop4:
  assumes "offset + 4 \<le> length data"
  shows "drop offset data = data ! offset # data ! (offset + 1) # data ! (offset + 2)
        # data ! (offset + 3) # drop (offset + 4) data"
proof -
  have 0: "drop offset data = data ! offset # drop (offset + 1) data"
    using assms by (intro drop_nth_Cons) simp
  have 1: "drop (offset + 1) data = data ! (offset + 1) # drop (offset + 1 + 1) data"
    using assms by (intro drop_nth_Cons) simp
  have 2: "drop (offset + 2) data = data ! (offset + 2) # drop (offset + 2 + 1) data"
    using assms by (intro drop_nth_Cons) simp
  have 3: "drop (offset + 3) data = data ! (offset + 3) # drop (offset + 3 + 1) data"
    using assms by (intro drop_nth_Cons) simp
  have e: "offset + 1 + 1 = offset + 2" "offset + 2 + 1 = offset + 3"
    "offset + 3 + 1 = offset + 4" by simp_all
  show ?thesis unfolding 0 1 e 2 3 ..
qed

lemma drop3:
  assumes "offset + 4 \<le> length data"
  shows "drop (offset + 3) data = data ! (offset + 3) # drop (offset + 4) data"
proof -
  have lt: "offset + 3 < length data" using assms by simp
  have e: "offset + 3 + 1 = offset + 4" by simp
  show ?thesis using drop_nth_Cons [OF lt] unfolding e .
qed

lemma loop_eq_spec:
  "ParseReadAttributesResponse_loop data offset m = spec_parse_attributes (drop offset data) m"
proof (induction data offset m rule: ParseReadAttributesResponse_loop.induct)
  case (1 data offset result)
  show ?case
  proof (cases "offset + 4 \<le> length data")
    case False
    then have "length (drop offset data) < 4" by simp
    from spec_parse_short [OF this] False show ?thesis
      by (subst ParseReadAttributesResponse_loop.simps) simp
  next
    case True
    note d = drop4 [OF True]
    let ?attr = "le_uint16 (data ! offset) (data ! (offset + 1))"
    let ?ty = "data ! (offset + 3)"
    let ?vs = "drop (offset + 4) data"
    show ?thesis
    proof (cases "data ! (offset + 2) \<noteq> 0")
      case st: True
      have "drop (offset + 3) data = ?ty # ?vs"
        using True by (rule drop3)
      then have r: "spec_parse_attributes (drop offset data) result
          = spec_parse_attributes (drop (offset + 3) data) result"
        using st by (subst d) simp
      from "1.IH"(1) [OF True refl refl st] True st r show ?thesis
        by (subst ParseReadAttributesResponse_loop.simps) (simp add: Let_def)
    next
      case st: False
      show ?thesis
      proof (cases "spec_type_width ?ty ?vs")
        case None
        then have "zclDataTypeLength ?ty ?vs = -1" by (simp add: zclDataTypeLength_width)
        with True st None show ?thesis
          by (subst ParseReadAttributesResponse_loop.simps, subst d) (simp add: Let_def)
      next
        case (Some n)
        then have z: "zclDataTypeLength ?ty ?vs = int n" by (simp add: zclDataTypeLength_width)
        from Some have pos: "0 < n" by (rule spec_type_width_pos)
        show ?thesis
        proof (cases "n \<le> length ?vs")
          case fits: True
          have nb: "\<not> (zclDataTypeLength ?ty ?vs \<le> 0
                \<or> int (offset + 4) + zclDataTypeLength ?ty ?vs > int (length data))"
            using z pos fits True by simp
          have g: "\<not> length data \<le> offset + 3" using True by simp
          have ih: "ParseReadAttributesResponse_loop data (offset + 4 + n)
                      (result(?attr \<mapsto> take n ?vs))
                  = spec_parse_attributes (drop (offset + 4 + n) data)
                      (result(?attr \<mapsto> take n ?vs))"
            using "1.IH"(2) [OF True refl refl st g refl refl nb refl] unfolding z
            by (simp add: fun_upd_def)
          have "spec_parse_attributes (drop offset data) result
              = spec_parse_attributes (drop n ?vs) (result(?attr \<mapsto> take n ?vs))"
            using st Some fits by (subst d) simp
          also have "drop n ?vs = drop (offset + 4 + n) data" by (simp add: add.commute)
          finally have sp: "spec_parse_attributes (drop offset data) result
              = spec_parse_attributes (drop (offset + 4 + n) data)
                  (result(?attr \<mapsto> take n ?vs))" .
          have "ParseReadAttributesResponse_loop data offset result
              = ParseReadAttributesResponse_loop data (offset + 4 + n)
                  (result(?attr \<mapsto> take n ?vs))"
            using True st z nb
            by (subst ParseReadAttributesResponse_loop.simps) (simp add: Let_def)
          with ih sp show ?thesis by simp
        next
          case over: False
          have "spec_parse_attributes (drop offset data) result = result"
            using st Some over by (subst d) simp
          moreover have "int (length data) < int (offset + 4) + int n"
            using over True by simp
          then have "ParseReadAttributesResponse_loop data offset result = result"
            using True st z
            by (subst ParseReadAttributesResponse_loop.simps) (simp add: Let_def)
          ultimately show ?thesis by simp
        qed
      qed
    qed
  qed
qed

lemma ParseReadAttributesResponse_example:
  "ParseReadAttributesResponse [0x00, 0x00, 0x00, 0x10, 0x01] = [0x0000 \<mapsto> [0x01]]"
  by (simp add: ParseReadAttributesResponse_def ParseReadAttributesResponse_loop.simps
      zclDataTypeLength_def le_uint16_def)

text \<open>
  C9. For every input, \<open>ParseReadAttributesResponse\<close> returns the map that the parser
  of the specification returns: entries with a status other than 0 are skipped and add
  nothing, an entry of a recognised type takes exactly the bytes its type defines (1, 2,
  3 or 4, or for type 0x42 the length byte and that many bytes) as its value, and the
  first entry that is cut short or of an unknown type ends the parsing with the entries
  read so far. The input 00 00 00 10 01 gives exactly the map from 0x0000 to [0x01].
\<close>

theorem ParseReadAttributesResponse_spec:
  "ParseReadAttributesResponse data = spec_parse_attributes data Map.empty
   \<and> ParseReadAttributesResponse [0x00, 0x00, 0x00, 0x10, 0x01] = [0x0000 \<mapsto> [0x01]]"
  using loop_eq_spec [of data 0 Map.empty] ParseReadAttributesResponse_example
  by (simp add: ParseReadAttributesResponse_def)

subsection \<open>EZSP version negotiation\<close>

lemma NegotiateVersion_retry:
  assumes "\<not> extendedFormat e" and "8 \<le> ncpVersion" and "4 \<le> length resp"
  shows "NegotiateVersion e (Responds [ncpVersion] # Responds resp # rest) =
     (Inr (resp ! 0, resp ! 1, le_uint16 (resp ! 2) (resp ! 3)),
      e\<lparr>ash := ash e @ [SendData [0x00, 0x00, 0x00, 13],
                         SendData [0x01, 0x01, 0x00, 0x00, 0x00, ncpVersion]],
        seq := 2, extendedFormat := True\<rparr>,
      rest)"
  using assms
  by (simp add: NegotiateVersion_def SendCommand_def NegotiateVersion_decode_def Let_def)

lemma NegotiateVersion_example:
  "NegotiateVersion NewEZSPLayer [Responds [0x08], Responds [0x08, 0x02, 0x5A, 0x00]]
   = (Inr (8, 2, 0x005A),
      \<lparr>ash = [SendData [0x00, 0x00, 0x00, 13], SendData [0x01, 0x01, 0x00, 0x00, 0x00, 0x08]],
       seq = 2, extendedFormat = True\<rparr>, [])"
  by (simp add: NegotiateVersion_def SendCommand_def NegotiateVersion_decode_def Let_def
      NewEZSPLayer_def le_uint16_def)

lemma NegotiateVersion_retry_sent:
  assumes "\<not> extendedFormat e" and "8 \<le> ncpVersion"
  shows "ash (fst (snd (NegotiateVersion e (Responds [ncpVersion] # rest))))
           = ash e @ [SendData [0x00, 0x00, 0x00, 13],
                      SendData [0x01, 0x01, 0x00, 0x00, 0x00, ncpVersion]]"
    and "extendedFormat (fst (snd (NegotiateVersion e (Responds [ncpVersion] # rest))))"
    and "seq (fst (snd (NegotiateVersion e (Responds [ncpVersion] # rest)))) = 2"
proof -
  obtain outcome rest' where n: "next_outcome rest = (outcome, rest')"
    by (cases "next_outcome rest")
  show "ash (fst (snd (NegotiateVersion e (Responds [ncpVersion] # rest))))
           = ash e @ [SendData [0x00, 0x00, 0x00, 13],
                      SendData [0x01, 0x01, 0x00, 0x00, 0x00, ncpVersion]]"
    using assms n
    by (cases outcome)
       (simp_all add: NegotiateVersion_def SendCommand_def NegotiateVersion_decode_def
          Let_def)
  show "extendedFormat (fst (snd (NegotiateVersion e (Responds [ncpVersion] # rest))))"
    using assms n
    by (cases outcome)
       (simp_all add: NegotiateVersion_def SendCommand_def NegotiateVersion_decode_def
          Let_def)
  show "seq (fst (snd (NegotiateVersion e (Responds [ncpVersion] # rest)))) = 2"
    using assms n
    by (cases outcome)
       (simp_all add: NegotiateVersion_def SendCommand_def NegotiateVersion_decode_def
          Let_def)
qed

text \<open>
  C1. Starting in the legacy format, when the first command gets the 1-byte response
  \<open>[ncpVersion]\<close> with \<open>ncpVersion\<close> at least 8, then whatever comes back for the
  retry (a response of any length, an error of \<open>SendData\<close>, a timeout, a stop, or
  nothing at all), the calls \<open>NegotiateVersion\<close> makes on the ASH layer are exactly two
  \<open>SendData\<close>, in this order and with no \<open>Reset\<close>: \<open>version(13)\<close> in the legacy
  format (sequence 0, frame control 0x00, frame id 0x00) and \<open>version(ncpVersion)\<close>
  in the extended format (sequence 1, frame control 0x01 0x00, frame id 0x00 0x00); and
  the layer ends in the extended format. When the retry is answered by a response of at
  least 4 bytes, the call returns protocol version = byte 0, stack type = byte 1, stack
  version = bytes 2 and 3 little-endian. The responses 08 and then 08 02 5A 00 give
  protocol 8, stack type 2, stack version 0x005A.
\<close>

theorem NegotiateVersion_v8_mismatch:
  assumes "\<not> extendedFormat e" and "8 \<le> ncpVersion"
  shows "(\<forall>rest.
            ash (fst (snd (NegotiateVersion e (Responds [ncpVersion] # rest))))
              = ash e @ [SendData [0x00, 0x00, 0x00, 13],
                         SendData [0x01, 0x01, 0x00, 0x00, 0x00, ncpVersion]]
          \<and> Reset \<notin> set (drop (length (ash e))
                (ash (fst (snd (NegotiateVersion e (Responds [ncpVersion] # rest))))))
          \<and> extendedFormat (fst (snd (NegotiateVersion e (Responds [ncpVersion] # rest)))))
       \<and> (\<forall>resp rest. 4 \<le> length resp \<longrightarrow>
            NegotiateVersion e (Responds [ncpVersion] # Responds resp # rest) =
              (Inr (resp ! 0, resp ! 1, le_uint16 (resp ! 2) (resp ! 3)),
               e\<lparr>ash := ash e @ [SendData [0x00, 0x00, 0x00, 13],
                                  SendData [0x01, 0x01, 0x00, 0x00, 0x00, ncpVersion]],
                 seq := 2, extendedFormat := True\<rparr>,
               rest))
       \<and> NegotiateVersion NewEZSPLayer [Responds [0x08], Responds [0x08, 0x02, 0x5A, 0x00]]
           = (Inr (8, 2, 0x005A),
              \<lparr>ash = [SendData [0x00, 0x00, 0x00, 13],
                      SendData [0x01, 0x01, 0x00, 0x00, 0x00, 0x08]],
               seq = 2, extendedFormat = True\<rparr>, [])"
proof (intro conjI allI impI)
  fix rest
  show a: "ash (fst (snd (NegotiateVersion e (Responds [ncpVersion] # rest))))
              = ash e @ [SendData [0x00, 0x00, 0x00, 13],
                         SendData [0x01, 0x01, 0x00, 0x00, 0x00, ncpVersion]]"
    using assms by (rule NegotiateVersion_retry_sent(1))
  show "Reset \<notin> set (drop (length (ash e))
                (ash (fst (snd (NegotiateVersion e (Responds [ncpVersion] # rest))))))"
    unfolding a by simp
  show "extendedFormat (fst (snd (NegotiateVersion e (Responds [ncpVersion] # rest))))"
    using assms by (rule NegotiateVersion_retry_sent(2))
next
  fix resp :: "byte list" and rest
  assume "4 \<le> length resp"
  with assms show "NegotiateVersion e (Responds [ncpVersion] # Responds resp # rest) =
              (Inr (resp ! 0, resp ! 1, le_uint16 (resp ! 2) (resp ! 3)),
               e\<lparr>ash := ash e @ [SendData [0x00, 0x00, 0x00, 13],
                                  SendData [0x01, 0x01, 0x00, 0x00, 0x00, ncpVersion]],
                 seq := 2, extendedFormat := True\<rparr>,
               rest)"
    by (rule NegotiateVersion_retry)
next
  show "NegotiateVersion NewEZSPLayer [Responds [0x08], Responds [0x08, 0x02, 0x5A, 0x00]]
           = (Inr (8, 2, 0x005A),
              \<lparr>ash = [SendData [0x00, 0x00, 0x00, 13],
                      SendData [0x01, 0x01, 0x00, 0x00, 0x00, 0x08]],
               seq = 2, extendedFormat = True\<rparr>, [])"
    by (rule NegotiateVersion_example)
qed

theorem NegotiateVersion_v8_mismatch_witness:
  "\<not> extendedFormat NewEZSPLayer \<and> (8::byte) \<le> 9
   \<and> 4 \<le> length [0x09, 0x02, 0x10, 0x07, 0xFF :: byte]
   \<and> NegotiateVersion NewEZSPLayer
         [Responds [0x09], Responds [0x09, 0x02, 0x10, 0x07, 0xFF], TimesOut]
       = (Inr (9, 2, 0x0710),
          \<lparr>ash = [SendData [0x00, 0x00, 0x00, 13],
                  SendData [0x01, 0x01, 0x00, 0x00, 0x00, 0x09]],
           seq = 2, extendedFormat = True\<rparr>, [TimesOut])
   \<and> ash (fst (snd (NegotiateVersion NewEZSPLayer [Responds [0x09], TimesOut])))
       = [SendData [0x00, 0x00, 0x00, 13], SendData [0x01, 0x01, 0x00, 0x00, 0x00, 0x09]]
   \<and> extendedFormat (fst (snd (NegotiateVersion NewEZSPLayer [Responds [0x09], TimesOut])))"
proof -
  have 1: "\<not> extendedFormat NewEZSPLayer" by (simp add: NewEZSPLayer_def)
  have 2: "(8::byte) \<le> 9" by simp
  have 3: "4 \<le> length [0x09, 0x02, 0x10, 0x07, 0xFF :: byte]" by simp
  note t = NegotiateVersion_v8_mismatch [OF 1 2]
  from t [THEN conjunct2, THEN conjunct1, THEN spec,
      of "[0x09, 0x02, 0x10, 0x07, 0xFF]", THEN spec, of "[TimesOut]", THEN mp, OF 3]
  have 4: "NegotiateVersion NewEZSPLayer
         [Responds [0x09], Responds [0x09, 0x02, 0x10, 0x07, 0xFF], TimesOut]
       = (Inr (9, 2, 0x0710),
          \<lparr>ash = [SendData [0x00, 0x00, 0x00, 13],
                  SendData [0x01, 0x01, 0x00, 0x00, 0x00, 0x09]],
           seq = 2, extendedFormat = True\<rparr>, [TimesOut])"
    by (simp add: NewEZSPLayer_def le_uint16_def)
  from t [THEN conjunct1, THEN spec, of "[TimesOut]"]
  have 5: "ash (fst (snd (NegotiateVersion NewEZSPLayer [Responds [0x09], TimesOut])))
       = [SendData [0x00, 0x00, 0x00, 13], SendData [0x01, 0x01, 0x00, 0x00, 0x00, 0x09]]"
    and 6: "extendedFormat (fst (snd (NegotiateVersion NewEZSPLayer [Responds [0x09], TimesOut])))"
    by (simp_all add: NewEZSPLayer_def)
  from 1 2 3 4 5 6 show ?thesis by (intro conjI)
qed

subsection \<open>Controller: device table\<close>












subsection \<open>Controller: SetDeviceState\<close>

lemma ToUpper_ON: "ToUpper ''ON'' = ''ON''"
  by code_simp

lemma level_200:
  "uint8_of_int 200 = 200" "uint8_of_float64 platform (Finite 200) = 200"
  "uint (200 :: byte) = 200"
  by (simp_all add: uint8_of_int_def uint8_of_float64_def float64_trunc_def)

lemma SendUnicast_success:
  "SendUnicast e nodeID profileID clusterID srcEndpoint dstEndpoint payload
       (Responds (emberSuccess # r)) =
     (None,
      e\<lparr>ash := ash e @
           [SendData (spec_ezsp_frame (extendedFormat e) (seq e) 0x0034
              (spec_unicast_params nodeID profileID clusterID srcEndpoint dstEndpoint payload))],
        seq := seq e + 1\<rparr>)"
  by (simp add: SendUnicast_def SendCommand_def Let_def le_bytes16_def spec_ezsp_frame_def
      spec_unicast_params_def spec_aps_frame_def)

lemma SendUnicast_ash:
  "\<exists>f. ash (snd (SendUnicast e nodeID profileID clusterID srcEndpoint dstEndpoint payload
       outcome)) = ash e @ [SendData f]"
  by (cases outcome) (simp_all add: SendUnicast_def SendCommand_def Let_def)

lemma SetDeviceState_state_ON:
  "SetDeviceState_state c devId kd (Some (GoString ''ON'')) (Responds (emberSuccess # r) # rest)
     = (None,
        c\<lparr>zclSeqCounter := zclSeqCounter c + 1,
          ezsp := (ezsp c)\<lparr>ash := ash (ezsp c) @
             [SendData (spec_ezsp_frame (extendedFormat (ezsp c)) (seq (ezsp c)) 0x0034
                (spec_unicast_params (NodeID kd) 0x0104 0x0006 1 (Endpoint kd)
                   (spec_zcl_cluster_command (zclSeqCounter c + 1) 0x01 [])))],
             seq := seq (ezsp c) + 1\<rparr>,
          devices := (devices c)(devId \<mapsto> kd\<lparr>State := (State kd)(''state'' \<mapsto> GoString ''ON'')\<rparr>)\<rparr>,
        kd\<lparr>State := (State kd)(''state'' \<mapsto> GoString ''ON'')\<rparr>,
        rest)"
  by (simp add: SetDeviceState_state_def ToUpper_ON Let_def BuildOnOffCommand_def
      EncodeZCLClusterCommand_def nextZCLSeq_def SendUnicast_success
      spec_zcl_cluster_command_def)

lemma SetDeviceState_brightness_200:
  assumes "v = GoInt 200 \<or> v = GoFloat64 (Finite 200) \<or> v = GoJsonNumber 200"
  shows "SetDeviceState_brightness platform c devId kd (Some v) (Responds (emberSuccess # r) # rest)
     = (None,
        c\<lparr>zclSeqCounter := zclSeqCounter c + 1,
          ezsp := (ezsp c)\<lparr>ash := ash (ezsp c) @
             [SendData (spec_ezsp_frame (extendedFormat (ezsp c)) (seq (ezsp c)) 0x0034
                (spec_unicast_params (NodeID kd) 0x0104 0x0008 1 (Endpoint kd)
                   (spec_zcl_cluster_command (zclSeqCounter c + 1) 0x04 [0xC8, 0x0A, 0x00])))],
             seq := seq (ezsp c) + 1\<rparr>,
          devices := (devices c)(devId \<mapsto> kd\<lparr>State := (State kd)(''brightness'' \<mapsto> GoInt 200)\<rparr>)\<rparr>,
        kd\<lparr>State := (State kd)(''brightness'' \<mapsto> GoInt 200)\<rparr>,
        rest)"
  using assms
  by (elim disjE)
     (simp_all add: SetDeviceState_brightness_def level_200 Let_def BuildMoveToLevelCommand_def
      EncodeZCLClusterCommand_def nextZCLSeq_def SendUnicast_success
      spec_zcl_cluster_command_def le_bytes16_def)


text \<open>
  C6 (amended). For a device in the table with endpoint 1 and the input
  \<open>{state: "ON", brightness: 200}\<close> (the number as an int, a float64 or a json.Number),
  when both commands are answered with status SUCCESS, \<open>SetDeviceState\<close> hands
  exactly two EZSP frames to ASH, in this order: \<open>sendUnicast\<close> to cluster 0x0006
  carrying the ZCL cluster-specific command 0x01 with an empty payload, then
  \<open>sendUnicast\<close> to cluster 0x0008 carrying command 0x04 with payload C8 0A 00
  (level 200, transition time 10); both with profile 0x0104, source endpoint 1 and
  destination endpoint 1. It returns the device's state with \<open>state = "ON"\<close> and
  \<open>brightness = 200\<close>, and the table holds that state.
\<close>

theorem SetDeviceState_on_and_dim:
  assumes "devices c devId = Some kd" and "Endpoint kd = 1"
    and "st ''state'' = Some (GoString ''ON'')"
    and "st ''brightness'' = Some v"
    and "v = GoInt 200 \<or> v = GoFloat64 (Finite 200) \<or> v = GoJsonNumber 200"
  shows "\<exists>c'. SetDeviceState platform c devId st
                (Responds (emberSuccess # r1) # Responds (emberSuccess # r2) # rest)
              = (Inr ((State kd)(''state'' \<mapsto> GoString ''ON'', ''brightness'' \<mapsto> GoInt 200)),
                 c', rest)
     \<and> ash (ezsp c') = ash (ezsp c) @
          [SendData (spec_ezsp_frame (extendedFormat (ezsp c)) (seq (ezsp c)) 0x0034
             (spec_unicast_params (NodeID kd) 0x0104 0x0006 1 1
                (spec_zcl_cluster_command (zclSeqCounter c + 1) 0x01 []))),
           SendData (spec_ezsp_frame (extendedFormat (ezsp c)) (seq (ezsp c) + 1) 0x0034
             (spec_unicast_params (NodeID kd) 0x0104 0x0008 1 1
                (spec_zcl_cluster_command (zclSeqCounter c + 2) 0x04 [0xC8, 0x0A, 0x00])))]
     \<and> devices c' devId
         = Some (kd\<lparr>State := (State kd)(''state'' \<mapsto> GoString ''ON'',
                                           ''brightness'' \<mapsto> GoInt 200)\<rparr>)"
proof -
  let ?kd1 = "kd\<lparr>State := (State kd)(''state'' \<mapsto> GoString ''ON'')\<rparr>"
  note s1 = SetDeviceState_state_ON [of c devId kd r1 "Responds (emberSuccess # r2) # rest"]
  have two: "zclSeqCounter c + 1 + 1 = zclSeqCounter c + 2" by simp
  show ?thesis
    unfolding SetDeviceState_def
    using assms(1-4) SetDeviceState_brightness_200 [OF assms(5)]
    by (simp add: s1 two add.assoc)
qed



theorem SetDeviceState_on_and_dim_witness:
  "devices scenario_controller ''88:77:66:55:44:33:22:11'' = Some scenario_light
   \<and> Endpoint scenario_light = 1
   \<and> (\<exists>c'. SetDeviceState (\<lambda>f. 0) scenario_controller ''88:77:66:55:44:33:22:11''
                [''state'' \<mapsto> GoString ''ON'', ''brightness'' \<mapsto> GoInt 200]
                [Responds [0x00], Responds [0x00]]
              = (Inr [''state'' \<mapsto> GoString ''ON'', ''brightness'' \<mapsto> GoInt 200], c', [])
          \<and> ash (ezsp c') =
               [SendData [0x00, 0x01, 0x00, 0x34, 0x00, 0x00, 0x34, 0x12, 0x04, 0x01,
                          0x06, 0x00, 0x01, 0x01, 0x40, 0x01, 0x00, 0x00, 0x00, 0x01,
                          0x03, 0x01, 0x01, 0x01],
                SendData [0x01, 0x01, 0x00, 0x34, 0x00, 0x00, 0x34, 0x12, 0x04, 0x01,
                          0x08, 0x00, 0x01, 0x01, 0x40, 0x01, 0x00, 0x00, 0x00, 0x01,
                          0x06, 0x01, 0x02, 0x04, 0xC8, 0x0A, 0x00]])"
proof -
  let ?st = "[''state'' \<mapsto> GoString ''ON'', ''brightness'' \<mapsto> GoInt 200]"
  have 1: "devices scenario_controller ''88:77:66:55:44:33:22:11'' = Some scenario_light"
    by (simp add: scenario_controller_def NewController_def)
  have 2: "Endpoint scenario_light = 1" by (simp add: scenario_light_def)
  have 3: "?st ''state'' = Some (GoString ''ON'')" by simp
  have 4: "?st ''brightness'' = Some (GoInt 200)" by simp
  have 5: "GoInt 200 = GoInt 200 \<or> GoInt 200 = GoFloat64 (Finite 200) \<or> GoInt 200 = GoJsonNumber 200"
    by simp
  from SetDeviceState_on_and_dim [OF 1 2 3 4 5, where ?r1.0 = "[]" and ?r2.0 = "[]"
      and rest = "[]" and platform = "\<lambda>f. 0"]
  obtain c' where
    r: "SetDeviceState (\<lambda>f. 0) scenario_controller ''88:77:66:55:44:33:22:11'' ?st
          [Responds [0x00], Responds [0x00]]
        = (Inr ((State scenario_light)(''state'' \<mapsto> GoString ''ON'',
                                      ''brightness'' \<mapsto> GoInt 200)), c', [])"
    and a: "ash (ezsp c') = ash (ezsp scenario_controller) @
          [SendData (spec_ezsp_frame (extendedFormat (ezsp scenario_controller))
             (seq (ezsp scenario_controller)) 0x0034
             (spec_unicast_params (NodeID scenario_light) 0x0104 0x0006 1 1
                (spec_zcl_cluster_command (zclSeqCounter scenario_controller + 1) 0x01 []))),
           SendData (spec_ezsp_frame (extendedFormat (ezsp scenario_controller))
             (seq (ezsp scenario_controller) + 1) 0x0034
             (spec_unicast_params (NodeID scenario_light) 0x0104 0x0008 1 1
                (spec_zcl_cluster_command (zclSeqCounter scenario_controller + 2) 0x04
                   [0xC8, 0x0A, 0x00])))]"
    by blast
  have r': "SetDeviceState (\<lambda>f. 0) scenario_controller ''88:77:66:55:44:33:22:11'' ?st
          [Responds [0x00], Responds [0x00]] = (Inr ?st, c', [])"
    using r by (simp add: scenario_light_def)
  have a': "ash (ezsp c') =
               [SendData [0x00, 0x01, 0x00, 0x34, 0x00, 0x00, 0x34, 0x12, 0x04, 0x01,
                          0x06, 0x00, 0x01, 0x01, 0x40, 0x01, 0x00, 0x00, 0x00, 0x01,
                          0x03, 0x01, 0x01, 0x01],
                SendData [0x01, 0x01, 0x00, 0x34, 0x00, 0x00, 0x34, 0x12, 0x04, 0x01,
                          0x08, 0x00, 0x01, 0x01, 0x40, 0x01, 0x00, 0x00, 0x00, 0x01,
                          0x06, 0x01, 0x02, 0x04, 0xC8, 0x0A, 0x00]]"
    unfolding a
    by (simp add: scenario_controller_def scenario_light_def NewController_def
        NewEZSPLayer_def spec_ezsp_frame_def spec_unicast_params_def spec_aps_frame_def
        spec_zcl_cluster_command_def le_bytes16_def)
  from 1 2 r' a' show ?thesis by blast
qed

text \<open>
  C6, as the claim states it, fails: when the first command gets no response,
  \<open>SetDeviceState\<close> returns the timeout wrapped as "send on/off command", having
  issued the On/Off command only.
\<close>

theorem SetDeviceState_timeout_counterexample:
  "devices scenario_controller ''88:77:66:55:44:33:22:11'' = Some scenario_light
   \<and> Endpoint scenario_light = 1
   \<and> fst (SetDeviceState (\<lambda>f. 0) scenario_controller ''88:77:66:55:44:33:22:11''
          [''state'' \<mapsto> GoString ''ON'', ''brightness'' \<mapsto> GoInt 200] [TimesOut])
       = Inl (Wrapf ''send on/off command: %w''
               (Errorf ''timeout waiting for EZSP response 0x%04X''))
   \<and> ash (ezsp (fst (snd (SetDeviceState (\<lambda>f. 0) scenario_controller ''88:77:66:55:44:33:22:11''
          [''state'' \<mapsto> GoString ''ON'', ''brightness'' \<mapsto> GoInt 200] [TimesOut]))))
       = [SendData [0x00, 0x01, 0x00, 0x34, 0x00, 0x00, 0x34, 0x12, 0x04, 0x01,
                    0x06, 0x00, 0x01, 0x01, 0x40, 0x01, 0x00, 0x00, 0x00, 0x01,
                    0x03, 0x01, 0x01, 0x01]]"
  by (simp add: SetDeviceState_def SetDeviceState_state_def ToUpper_ON Let_def
      BuildOnOffCommand_def EncodeZCLClusterCommand_def nextZCLSeq_def SendUnicast_def
      SendCommand_def scenario_controller_def scenario_light_def NewController_def
      NewEZSPLayer_def le_bytes16_def)

lemma error_is_validation: "error_is (Wrapf msg ErrValidation) ErrValidation"
  by simp

lemma SetDeviceState_invalid_state_string:
  assumes "devices c devId = Some kd" and "st ''state'' = Some (GoString s)"
    and "ToUpper s \<noteq> ''ON''" and "ToUpper s \<noteq> ''OFF''" and "ToUpper s \<noteq> ''TOGGLE''"
  shows "SetDeviceState platform c devId st n
           = (Inl (Wrapf ''%w: invalid state value %q'' ErrValidation), c, n)"
  using assms by (simp add: SetDeviceState_def SetDeviceState_state_def Let_def)

lemma SetDeviceState_state_skipped:
  assumes "\<And>s. v \<noteq> GoString s"
  shows "SetDeviceState_state c devId kd (Some v) n = (None, c, kd, n)"
  using assms by (cases v) (auto simp: SetDeviceState_state_def)

lemma SetDeviceState_state_absent:
  "SetDeviceState_state c devId kd None n = (None, c, kd, n)"
  by (simp add: SetDeviceState_state_def)

lemma SetDeviceState_state_not_string_as_absent:
  assumes "st ''state'' = Some v" and "\<And>s. v \<noteq> GoString s"
  shows "SetDeviceState platform c devId st n
           = SetDeviceState platform c devId (st(''state'' := None)) n"
  using assms(1) SetDeviceState_state_skipped [OF assms(2)]
  by (cases "devices c devId") (simp_all add: SetDeviceState_def SetDeviceState_state_absent)

lemma SetDeviceState_state_not_string:
  assumes "devices c devId = Some kd" and "st ''state'' = Some v"
    and "\<And>s. v \<noteq> GoString s" and "st ''brightness'' = None"
  shows "SetDeviceState platform c devId st n = (Inr (State kd), c, n)"
  using assms SetDeviceState_state_skipped [OF assms(3)]
  by (simp add: SetDeviceState_def SetDeviceState_brightness_def)

text \<open>
  C7, as the claim states it, fails: at the input \<open>{state: 5}\<close> for a device of the
  table the value is not a string, the block for \<open>state\<close> is skipped, and the call
  succeeds with the device's state, the controller unchanged and nothing sent; no
  Validation error is returned.
\<close>

theorem SetDeviceState_state_number_counterexample:
  "devices scenario_controller ''88:77:66:55:44:33:22:11'' = Some scenario_light
   \<and> SetDeviceState (\<lambda>f. 0) scenario_controller ''88:77:66:55:44:33:22:11''
       [''state'' \<mapsto> GoInt 5] []
     = (Inr (State scenario_light), scenario_controller, [])"
proof -
  have 1: "devices scenario_controller ''88:77:66:55:44:33:22:11'' = Some scenario_light"
    by (simp add: scenario_controller_def NewController_def)
  have "SetDeviceState (\<lambda>f. 0) scenario_controller ''88:77:66:55:44:33:22:11''
       [''state'' \<mapsto> GoInt 5] []
     = (Inr (State scenario_light), scenario_controller, [])"
    by (rule SetDeviceState_state_not_string [OF 1, where v = "GoInt 5"]) simp_all
  with 1 show ?thesis by (rule conjI)
qed

text \<open>
  C7 (amended). For a device of the table and a \<open>state\<close> key with value \<open>v\<close>: when
  \<open>v\<close> is a string that is not ON, OFF or TOGGLE in any letter case, \<open>SetDeviceState\<close>
  fails with an error of the Validation kind and returns the controller as it was, so
  nothing has been sent; when \<open>v\<close> is not a string (a number, say), the block for
  \<open>state\<close> changes nothing and sends nothing, the call goes on as if the key were
  absent, and with no \<open>brightness\<close> key it returns the device's state with the
  controller unchanged.
\<close>

theorem SetDeviceState_state_validation:
  assumes "devices c devId = Some kd" and "st ''state'' = Some v"
  shows "(\<forall>s. v = GoString s \<and> ToUpper s \<noteq> ''ON'' \<and> ToUpper s \<noteq> ''OFF''
              \<and> ToUpper s \<noteq> ''TOGGLE'' \<longrightarrow>
            (\<exists>err. SetDeviceState platform c devId st n = (Inl err, c, n)
                   \<and> error_is err ErrValidation))
       \<and> ((\<forall>s. v \<noteq> GoString s) \<longrightarrow>
            SetDeviceState_state c devId kd (st ''state'') n = (None, c, kd, n)
          \<and> SetDeviceState platform c devId st n
              = SetDeviceState platform c devId (st(''state'' := None)) n
          \<and> (st ''brightness'' = None \<longrightarrow>
                SetDeviceState platform c devId st n = (Inr (State kd), c, n)))"
proof (intro conjI allI impI)
  fix s
  assume a: "v = GoString s \<and> ToUpper s \<noteq> ''ON'' \<and> ToUpper s \<noteq> ''OFF''
              \<and> ToUpper s \<noteq> ''TOGGLE''"
  with assms(2) have st: "st ''state'' = Some (GoString s)" by simp
  from a have u: "ToUpper s \<noteq> ''ON''" "ToUpper s \<noteq> ''OFF''" "ToUpper s \<noteq> ''TOGGLE''"
    by simp_all
  from assms(1) st u have "SetDeviceState platform c devId st n
           = (Inl (Wrapf ''%w: invalid state value %q'' ErrValidation), c, n)"
    by (rule SetDeviceState_invalid_state_string [where kd = kd and s = s])
  then show "\<exists>err. SetDeviceState platform c devId st n = (Inl err, c, n)
                   \<and> error_is err ErrValidation"
    using error_is_validation by blast
next
  assume ns: "\<forall>s. v \<noteq> GoString s"
  then have ns': "\<And>s. v \<noteq> GoString s" by simp
  show "SetDeviceState_state c devId kd (st ''state'') n = (None, c, kd, n)"
    unfolding assms(2) using ns' by (rule SetDeviceState_state_skipped)
  show "SetDeviceState platform c devId st n
              = SetDeviceState platform c devId (st(''state'' := None)) n"
    using assms(2) ns' by (rule SetDeviceState_state_not_string_as_absent)
  assume "st ''brightness'' = None"
  with assms ns' show "SetDeviceState platform c devId st n = (Inr (State kd), c, n)"
    by (intro SetDeviceState_state_not_string [where v = v and kd = kd]) simp_all
qed

lemma ToUpper_dim: "ToUpper ''dim'' = ''DIM''"
  by code_simp

theorem SetDeviceState_state_validation_witness:
  "devices scenario_controller ''88:77:66:55:44:33:22:11'' = Some scenario_light
   \<and> [''state'' \<mapsto> GoString ''dim''] ''state'' = Some (GoString ''dim'')
   \<and> ToUpper ''dim'' = ''DIM''
   \<and> (\<exists>err. SetDeviceState (\<lambda>f. 0) scenario_controller ''88:77:66:55:44:33:22:11''
               [''state'' \<mapsto> GoString ''dim''] []
             = (Inl err, scenario_controller, [])
          \<and> error_is err ErrValidation)"
proof -
  let ?st = "[''state'' \<mapsto> GoString ''dim'']"
  have 1: "devices scenario_controller ''88:77:66:55:44:33:22:11'' = Some scenario_light"
    by (simp add: scenario_controller_def NewController_def)
  have 2: "?st ''state'' = Some (GoString ''dim'')" by simp
  have 3: "GoString ''dim'' = GoString ''dim'' \<and> ToUpper ''dim'' \<noteq> ''ON''
      \<and> ToUpper ''dim'' \<noteq> ''OFF'' \<and> ToUpper ''dim'' \<noteq> ''TOGGLE''"
    unfolding ToUpper_dim by simp
  from SetDeviceState_state_validation [where c = scenario_controller
      and devId = "''88:77:66:55:44:33:22:11''" and kd = scenario_light and st = ?st
      and v = "GoString ''dim''" and platform = "\<lambda>f. 0" and n = "[]",
      OF 1 2, THEN conjunct1, THEN spec, of "''dim''", THEN mp, OF 3]
  have 4: "\<exists>err. SetDeviceState (\<lambda>f. 0) scenario_controller ''88:77:66:55:44:33:22:11''
               ?st [] = (Inl err, scenario_controller, [])
          \<and> error_is err ErrValidation" .
  from 1 2 ToUpper_dim 4 show ?thesis by (intro conjI)
qed

end
